theory Spec2Isabelle
  imports Complex_Main
begin

section \<open>The platform: values, errors, paths, file system, console, clock\<close>

text \<open>
  The library is glue code over Node's file, console, clock and random primitives.
  Those primitives are modelled here once; the three classes of the library
  (Logger, Utils, Filer) are then embedded on top of them, statement by statement.

  A call of the library is a function from the world before the call to an outcome
  and the world after it. The outcome of an async function is the state of its
  promise: \<open>Inr v\<close> is a promise resolved with \<open>v\<close>, \<open>Inl e\<close> a promise rejected
  with \<open>e\<close> (for a synchronous function: returned \<open>v\<close>, thrown \<open>e\<close>).
\<close>

subsection \<open>JavaScript values of the numeric parameters\<close>

text \<open>
  The values that the numeric parameters of Utils and Filer hold: \<open>undefined\<close>
  (argument omitted), \<open>null\<close>, \<open>false\<close> (what getRandomInt returns on error),
  and the numbers: \<open>NaN\<close>, the two infinities, and the finite numbers. A finite
  number is a double; \<open>Num x\<close> holds its value, and the arithmetic below rounds every
  result to a double. The sign of zero is not kept. Truthiness is JavaScript's: of
  these values the numbers other than \<open>0\<close> and \<open>NaN\<close> are truthy.
\<close>

datatype jsval = Undefined | Null | JFalse | NaN | PosInf | NegInf | Num real

fun truthy :: "jsval \<Rightarrow> bool" where
  "truthy (Num x) = (x \<noteq> 0)"
| "truthy PosInf = True"
| "truthy NegInf = True"
| "truthy _ = False"

text \<open>Decimal rendering of numbers, as a template literal renders them.\<close>

definition digit_char :: "nat \<Rightarrow> char" where
  "digit_char d = ''0123456789'' ! d"

function string_of_nat :: "nat \<Rightarrow> string" where
  "string_of_nat n =
     (if n < 10 then [digit_char n]
      else string_of_nat (n div 10) @ [digit_char (n mod 10)])"
  by pat_completeness auto
termination
  by (relation "measure (\<lambda>n. n)") auto

declare string_of_nat.simps [simp del]

definition string_of_int :: "int \<Rightarrow> string" where
  "string_of_int i =
     (if i < 0 then CHR ''-'' # string_of_nat (nat (- i)) else string_of_nat (nat i))"

subsection \<open>Double arithmetic\<close>

text \<open>
  JavaScript numbers are IEEE 754 doubles: the finite ones are the reals
  \<open>m * 2 ^ e\<close> with \<open>\<bar>m\<bar> < 2 ^ 53\<close> and \<open>-1074 \<le> e \<le> 971\<close>. An arithmetic operation
  returns the double nearest to the exact result, the one with the even significand
  when two are equally near, and an infinity when that lies beyond the largest double.

  \<open>round_even\<close> rounds to the nearest integer, a half to the even neighbour.
\<close>

definition round_even :: "real \<Rightarrow> int" where
  "round_even y =
     (let f = \<lfloor>y\<rfloor>; d = y - of_int f in
      if d < 1 / 2 then f
      else if 1 / 2 < d then f + 1
      else if even f then f else f + 1)"

text \<open>
  The distance between neighbouring doubles around \<open>x\<close>: \<open>2 ^ -1074\<close> for the
  smallest numbers, and otherwise the power of two \<open>u\<close> for which
  \<open>2 ^ 52 \<le> \<bar>x\<bar> / u < 2 ^ 53\<close>. It is found by doubling.
\<close>

definition min_exp :: nat where
  "min_exp = 1074"

function spacing_from :: "real \<Rightarrow> real \<Rightarrow> real" where
  "spacing_from u x =
     (if u \<le> 0 \<or> \<bar>x\<bar> / u < 2 ^ 53 then u else spacing_from (2 * u) x)"
  by pat_completeness auto
termination
proof (relation "measure (\<lambda>(u, x). nat \<lceil>\<bar>x\<bar> / u\<rceil>)")
  show "wf (measure (\<lambda>(u, x). nat \<lceil>\<bar>x\<bar> / u\<rceil>))" by simp
next
  fix u x :: real
  assume "\<not> (u \<le> 0 \<or> \<bar>x\<bar> / u < 2 ^ 53)"
  then have u: "0 < u" and y: "2 ^ 53 \<le> \<bar>x\<bar> / u" by simp_all
  let ?y = "\<bar>x\<bar> / u"
  have "?y / 2 \<le> ?y - 1" using y by simp
  then have "\<lceil>?y / 2\<rceil> \<le> \<lceil>?y - 1\<rceil>" by (rule ceiling_mono)
  then have "\<lceil>?y / 2\<rceil> < \<lceil>?y\<rceil>" by simp
  moreover have "0 < \<lceil>?y\<rceil>" using y by (simp add: ceiling_less_iff less_ceiling_iff)
  moreover have "\<bar>x\<bar> / (2 * u) = ?y / 2" by simp
  ultimately have "nat \<lceil>\<bar>x\<bar> / (2 * u)\<rceil> < nat \<lceil>?y\<rceil>"
    by (simp only: zless_nat_conj)
  then show "((2 * u, x), (u, x)) \<in> measure (\<lambda>(u, x). nat \<lceil>\<bar>x\<bar> / u\<rceil>)"
    by simp
qed

declare spacing_from.simps [simp del]

definition spacing :: "real \<Rightarrow> real" where
  "spacing x = spacing_from (1 / 2 ^ min_exp) x"

text \<open>The double, or the infinity, that the real \<open>x\<close> is rounded to.\<close>

definition fl :: "real \<Rightarrow> jsval" where
  "fl x =
     (let u = spacing x; y = of_int (round_even (x / u)) * u in
      if 2 ^ 1024 \<le> y then PosInf
      else if y \<le> - (2 ^ 1024) then NegInf
      else Num y)"

text \<open>A real is a double when rounding leaves it as it is.\<close>

definition is_double :: "real \<Rightarrow> bool" where
  "is_double x = (fl x = Num x)"

text \<open>\<open>ToNumber\<close>, which the arithmetic operators apply to their operands.\<close>

fun to_number :: "jsval \<Rightarrow> jsval" where
  "to_number Undefined = NaN"
| "to_number Null = Num 0"
| "to_number JFalse = Num 0"
| "to_number v = v"

text \<open>Sum, negation and product of numbers; an undefined result is \<open>NaN\<close>.\<close>

fun num_add :: "jsval \<Rightarrow> jsval \<Rightarrow> jsval" where
  "num_add (Num x) (Num y) = fl (x + y)"
| "num_add (Num x) PosInf = PosInf"
| "num_add (Num x) NegInf = NegInf"
| "num_add PosInf (Num y) = PosInf"
| "num_add NegInf (Num y) = NegInf"
| "num_add PosInf PosInf = PosInf"
| "num_add NegInf NegInf = NegInf"
| "num_add a b = NaN"

fun num_neg :: "jsval \<Rightarrow> jsval" where
  "num_neg (Num x) = Num (- x)"
| "num_neg PosInf = NegInf"
| "num_neg NegInf = PosInf"
| "num_neg a = NaN"

fun num_mul :: "jsval \<Rightarrow> jsval \<Rightarrow> jsval" where
  "num_mul (Num x) (Num y) = fl (x * y)"
| "num_mul (Num x) PosInf = (if x = 0 then NaN else if 0 < x then PosInf else NegInf)"
| "num_mul (Num x) NegInf = (if x = 0 then NaN else if 0 < x then NegInf else PosInf)"
| "num_mul PosInf (Num y) = (if y = 0 then NaN else if 0 < y then PosInf else NegInf)"
| "num_mul NegInf (Num y) = (if y = 0 then NaN else if 0 < y then NegInf else PosInf)"
| "num_mul PosInf PosInf = PosInf"
| "num_mul NegInf NegInf = PosInf"
| "num_mul PosInf NegInf = NegInf"
| "num_mul NegInf PosInf = NegInf"
| "num_mul a b = NaN"

text \<open>The operators \<open>+\<close>, \<open>-\<close>, \<open>*\<close> and \<open><\<close> on these values, and \<open>Math.floor\<close>.\<close>

definition js_add :: "jsval \<Rightarrow> jsval \<Rightarrow> jsval" where
  "js_add a b = num_add (to_number a) (to_number b)"

definition js_sub :: "jsval \<Rightarrow> jsval \<Rightarrow> jsval" where
  "js_sub a b = num_add (to_number a) (num_neg (to_number b))"

definition js_mul :: "jsval \<Rightarrow> jsval \<Rightarrow> jsval" where
  "js_mul a b = num_mul (to_number a) (to_number b)"

fun num_less :: "jsval \<Rightarrow> jsval \<Rightarrow> bool" where
  "num_less (Num x) (Num y) = (x < y)"
| "num_less (Num x) PosInf = True"
| "num_less NegInf (Num y) = True"
| "num_less NegInf PosInf = True"
| "num_less a b = False"

definition js_less :: "jsval \<Rightarrow> jsval \<Rightarrow> bool" where
  "js_less a b = num_less (to_number a) (to_number b)"

fun num_floor :: "jsval \<Rightarrow> jsval" where
  "num_floor (Num x) = Num (of_int \<lfloor>x\<rfloor>)"
| "num_floor PosInf = PosInf"
| "num_floor NegInf = NegInf"
| "num_floor a = NaN"

definition Math_floor :: "jsval \<Rightarrow> jsval" where
  "Math_floor a = num_floor (to_number a)"


subsection \<open>Strings\<close>

definition newline :: string where
  "newline = [CHR 0x0A]"

definition quote :: string where
  "quote = [CHR 0x27]"

text \<open>\<open>String.prototype.toLowerCase\<close> on the ASCII letters.\<close>

definition lower_char :: "char \<Rightarrow> char" where
  "lower_char c =
     (case map_of (zip ''ABCDEFGHIJKLMNOPQRSTUVWXYZ'' ''abcdefghijklmnopqrstuvwxyz'') c of
        Some l \<Rightarrow> l
      | None \<Rightarrow> c)"

definition toLowerCase :: "string \<Rightarrow> string" where
  "toLowerCase s = map lower_char s"

text \<open>\<open>s.split(c)\<close>: the pieces of \<open>s\<close> between the occurrences of \<open>c\<close>; never empty.\<close>

fun split :: "char \<Rightarrow> string \<Rightarrow> string list" where
  "split c [] = [Nil]"
| "split c (x # xs) =
     (if x = c then [] # split c xs
      else (case split c xs of
              [] \<Rightarrow> [x # []]
            | y # ys \<Rightarrow> (x # y) # ys))"

text \<open>\<open>s.slice(-2)\<close>: the last two characters (all of \<open>s\<close> when it is shorter).\<close>

definition slice_last2 :: "string \<Rightarrow> string" where
  "slice_last2 s = drop (length s - 2) s"

subsection \<open>Paths\<close>

text \<open>
  An absolute, normalised path is the list of its components: \<open>/srv/app\<close> is
  \<open>[''srv'', ''app'']\<close> and the root is \<open>[]\<close>. \<open>path.join\<close> of such a path with
  relative segments appends them, \<open>..\<close> dropping the last component and \<open>.\<close>
  none; \<open>path.dirname\<close> drops the last component.
\<close>

type_synonym path = "string list"

fun path_join :: "path \<Rightarrow> string list \<Rightarrow> path" where
  "path_join p [] = p"
| "path_join p (s # ss) =
     (if s = ''..'' then path_join (butlast p) ss
      else if s = ''.'' \<or> s = [] then path_join p ss
      else path_join (p @ [s]) ss)"

definition path_dirname :: "path \<Rightarrow> path" where
  "path_dirname p = butlast p"

text \<open>The text of a path, as a template literal shows it.\<close>

definition render :: "path \<Rightarrow> string" where
  "render p = (if p = [] then ''/'' else concat (map (\<lambda>s. CHR ''/'' # s) p))"

subsection \<open>Errors\<close>

datatype errno = ENOENT | EACCES | EISDIR | ENOTDIR | EEXIST

text \<open>
  A thrown value: a TypeError, a system error of a file operation (code, system call,
  path) or an error raised by a caller-supplied generator.
\<close>

datatype error =
    TypeError string
  | SystemError errno string path
  | UserError string

fun errno_text :: "errno \<Rightarrow> string" where
  "errno_text ENOENT = ''ENOENT: no such file or directory''"
| "errno_text EACCES = ''EACCES: permission denied''"
| "errno_text EISDIR = ''EISDIR: illegal operation on a directory''"
| "errno_text ENOTDIR = ''ENOTDIR: not a directory''"
| "errno_text EEXIST = ''EEXIST: file already exists''"

text \<open>The \<open>message\<close> property of a thrown error.\<close>

fun error_message :: "error \<Rightarrow> string" where
  "error_message (TypeError m) = m"
| "error_message (SystemError e call p) =
     errno_text e @ '', '' @ call @ '' '' @ quote @ render p @ quote"
| "error_message (UserError m) = m"

subsection \<open>The world\<close>

text \<open>
  A file holds its text and its modification time (milliseconds since the epoch); a
  directory its modification time.
\<close>

datatype node = File (content: string) (mtime: int) | Dir (mtime: int)

text \<open>What one reading of the clock shows: \<open>Date.now()\<close>, \<open>toISOString()\<close>, and the
  local calendar fields \<open>getFullYear()\<close>, \<open>getMonth()\<close> (0 to 11), \<open>getDate()\<close>.\<close>

record instant =
  millis :: int
  iso :: string
  fullYear :: nat
  month0 :: nat
  dayOfMonth :: nat

text \<open>
  What \<open>new Error().stack.split('\n')[3]\<close> and the regular expression
  \<open>/at (.*?) \((.*?)\)/\<close> make of the stack: there is no fourth line
  (\<open>undefined\<close>), the line does not match (\<open>null\<close>), or the first group of the match.
\<close>

datatype frame = NoLine | NoMatch | Caller string

text \<open>
  The world: the file tree, the paths the process may not modify, the lines written to
  standard output, the working directory, the directory of the logger module
  (\<open>__dirname\<close>), and the three inputs the program reads from its environment. Each
  of these is a sequence with a read counter: the \<open>k\<close>-th reading of the clock shows
  \<open>clock k\<close>, the \<open>k\<close>-th captured stack \<open>stacks k\<close>, the \<open>k\<close>-th call of
  \<open>Math.random()\<close> returns \<open>randoms k\<close>. \<open>number_text\<close> is the text the engine
  prints for a number that is not a whole number below \<open>10 ^ 21\<close>.
\<close>

record world =
  fs :: "path \<rightharpoonup> node"
  readonly :: "path \<Rightarrow> bool"
  stdout :: "string list"
  cwd :: path
  module_dir :: path
  clock :: "nat \<Rightarrow> instant"
  ticks :: nat
  stacks :: "nat \<Rightarrow> frame"
  captured :: nat
  randoms :: "nat \<Rightarrow> real"
  draws :: nat
  number_text :: "real \<Rightarrow> string"

definition new_Date :: "world \<Rightarrow> instant \<times> world" where
  "new_Date w = (clock w (ticks w), w\<lparr>ticks := Suc (ticks w)\<rparr>)"

definition new_Error_stack :: "world \<Rightarrow> frame \<times> world" where
  "new_Error_stack w = (stacks w (captured w), w\<lparr>captured := Suc (captured w)\<rparr>)"

definition Math_random :: "world \<Rightarrow> real \<times> world" where
  "Math_random w = (randoms w (draws w), w\<lparr>draws := Suc (draws w)\<rparr>)"

definition console_log :: "string \<Rightarrow> world \<Rightarrow> world" where
  "console_log line w = w\<lparr>stdout := stdout w @ [line]\<rparr>"

text \<open>The text of a value in a template literal.\<close>

fun template :: "world \<Rightarrow> jsval \<Rightarrow> string" where
  "template w Undefined = ''undefined''"
| "template w Null = ''null''"
| "template w JFalse = ''false''"
| "template w NaN = ''NaN''"
| "template w PosInf = ''Infinity''"
| "template w NegInf = ''-Infinity''"
| "template w (Num x) =
     (if of_int \<lfloor>x\<rfloor> = x \<and> \<bar>x\<bar> < 10 ^ 21 then string_of_int \<lfloor>x\<rfloor>
      else number_text w x)"

subsection \<open>File-system primitives\<close>

text \<open>
  The operations of Node's \<open>fs\<close> module that the library calls. The time stamp the
  operating system puts on a written file is the current reading of the clock (taking
  it does not count as a reading by the program).
\<close>

definition os_time :: "world \<Rightarrow> int" where
  "os_time w = millis (clock w (ticks w))"

definition is_dir :: "world \<Rightarrow> path \<Rightarrow> bool" where
  "is_dir w p = (case fs w p of Some (Dir t) \<Rightarrow> True | _ \<Rightarrow> False)"

definition fs_existsSync :: "path \<Rightarrow> world \<Rightarrow> bool" where
  "fs_existsSync p w = (fs w p \<noteq> None)"

text \<open>
  Why opening \<open>p\<close> for writing fails, if it does: \<open>p\<close> is a directory; \<open>p\<close> exists
  and may not be modified; \<open>p\<close> does not exist and its directory may not be modified,
  is a file, or does not exist either.
\<close>

definition open_for_write :: "path \<Rightarrow> world \<Rightarrow> errno option" where
  "open_for_write p w =
     (if is_dir w p then Some EISDIR
      else if fs w p \<noteq> None then (if readonly w p then Some EACCES else None)
      else if is_dir w (path_dirname p) then
        (if readonly w (path_dirname p) then Some EACCES else None)
      else if fs w (path_dirname p) \<noteq> None then Some ENOTDIR
      else Some ENOENT)"

definition old_content :: "world \<Rightarrow> path \<Rightarrow> string" where
  "old_content w p = (case fs w p of Some (File c t) \<Rightarrow> c | _ \<Rightarrow> [])"

definition fs_writeFileSync :: "path \<Rightarrow> string \<Rightarrow> world \<Rightarrow> (error + unit) \<times> world" where
  "fs_writeFileSync p s w =
     (case open_for_write p w of
        Some e \<Rightarrow> (Inl (SystemError e ''open'' p), w)
      | None \<Rightarrow> (Inr (), w\<lparr>fs := (fs w)(p \<mapsto> File s (os_time w))\<rparr>))"

definition fs_appendFileSync :: "path \<Rightarrow> string \<Rightarrow> world \<Rightarrow> (error + unit) \<times> world" where
  "fs_appendFileSync p s w =
     (case open_for_write p w of
        Some e \<Rightarrow> (Inl (SystemError e ''open'' p), w)
      | None \<Rightarrow> (Inr (), w\<lparr>fs := (fs w)(p \<mapsto> File (old_content w p @ s) (os_time w))\<rparr>))"

record stats =
  stats_mtime :: int

definition fs_stat :: "path \<Rightarrow> world \<Rightarrow> (error + stats) \<times> world" where
  "fs_stat p w =
     (case fs w p of
        None \<Rightarrow> (Inl (SystemError ENOENT ''stat'' p), w)
      | Some n \<Rightarrow> (Inr \<lparr>stats_mtime = mtime n\<rparr>, w))"

definition fs_access :: "path \<Rightarrow> world \<Rightarrow> (error + unit) \<times> world" where
  "fs_access p w =
     (case fs w p of
        None \<Rightarrow> (Inl (SystemError ENOENT ''access'' p), w)
      | Some n \<Rightarrow> (Inr (), w))"


text \<open>
  \<open>mkdirSync(p, {recursive: true})\<close> walks from the root down to \<open>p\<close> and creates
  every directory that is missing; what it has created stays when a later step fails.
\<close>

fun mkdirs :: "path list \<Rightarrow> world \<Rightarrow> (error + unit) \<times> world" where
  "mkdirs [] w = (Inr (), w)"
| "mkdirs (d # ds) w =
     (case fs w d of
        Some (Dir t) \<Rightarrow> mkdirs ds w
      | Some (File c t) \<Rightarrow>
          (Inl (SystemError (if ds = [] then EEXIST else ENOTDIR) ''mkdir'' d), w)
      | None \<Rightarrow>
          if readonly w (path_dirname d) then (Inl (SystemError EACCES ''mkdir'' d), w)
          else mkdirs ds (w\<lparr>fs := (fs w)(d \<mapsto> Dir (os_time w))\<rparr>))"

definition fs_mkdirSync_recursive :: "path \<Rightarrow> world \<Rightarrow> (error + unit) \<times> world" where
  "fs_mkdirSync_recursive p w = mkdirs (map (\<lambda>k. take k p) [0 ..< Suc (length p)]) w"

text \<open>Sequencing: the second step runs only when the first did not throw.\<close>

definition and_then ::
  "(error + 'a) \<times> world \<Rightarrow> ('a \<Rightarrow> world \<Rightarrow> (error + 'b) \<times> world) \<Rightarrow> (error + 'b) \<times> world" where
  "and_then r k = (case r of (Inl e, w) \<Rightarrow> (Inl e, w) | (Inr v, w) \<Rightarrow> k v w)"

section \<open>Logger (src/lib/logger.js)\<close>

text \<open>
  The repository holds two variants of the Logger class. They differ in where the log
  directory lies (working directory against module directory), in whether the
  constructor waits for the files to be created, in the text of a log line (variant 1
  adds a caller label, and omits the level tag for reports), and in \<open>report\<close>
  (variant 1 logs the message a second time as info). \<open>logType\<close> and
  \<open>ensureLogFileExists\<close> read the same in both.
\<close>

datatype variant = V1 | V2

text \<open>
  In \<open>src/lib/logger.js\<close> variant 1 is the class of lines 39 to 167, variant 2 the
  class of lines 207 to 318.

  The instance: the two paths that initLogFiles stores in \<open>this\<close>.
\<close>

record logger =
  logFile :: path
  reportFile :: path

text \<open>The object that logType returns.\<close>

record log_type =
  type :: string
  report :: bool
  onConsole :: bool
  file' :: path

definition logDateString :: "instant \<Rightarrow> string" where
  "logDateString date =
     string_of_nat (fullYear date)
     @ slice_last2 (''0'' @ string_of_nat (month0 date + 1))
     @ slice_last2 (''0'' @ string_of_nat (dayOfMonth date))"

definition ensureLogFileExists :: "logger \<Rightarrow> world \<Rightarrow> (error + unit) \<times> world" where
  "ensureLogFileExists this w =
     (let logDir = path_dirname (logFile this) in
      and_then (if \<not> fs_existsSync logDir w then fs_mkdirSync_recursive logDir w
                else (Inr (), w))
        (\<lambda>_ w1.
      and_then (if \<not> fs_existsSync (logFile this) w1
                then fs_writeFileSync (logFile this) [] w1 else (Inr (), w1))
        (\<lambda>_ w2.
          if \<not> fs_existsSync (reportFile this) w2
          then fs_writeFileSync (reportFile this) [] w2 else (Inr (), w2))))"

text \<open>
  Variant 1 starts ensureLogFileExists in an async function that nobody awaits: a
  failure there is not thrown by the constructor. The world returned is the one in
  which that function has run to its end.
\<close>

definition initLogFiles_v1 :: "world \<Rightarrow> logger \<times> world" where
  "initLogFiles_v1 w =
     (let rootDir = cwd w;
          (date, w1) = new_Date w;
          this = \<lparr>logFile = path_join rootDir [''logs'', ''log_'' @ logDateString date @ ''.txt''],
                  reportFile = path_join rootDir [''logs'', ''report_'' @ logDateString date @ ''.txt'']\<rparr>
      in (this, snd (ensureLogFileExists this w1)))"

text \<open>
  Variant 2 calls ensureLogFileExists directly: what it throws, initLogFiles throws.
  Its paths start from the directory of the module; the argument \<open>'../logs'\<close> of
  \<open>path.join\<close> is the two segments \<open>..\<close> and \<open>logs\<close>.
\<close>

definition initLogFiles_v2 :: "world \<Rightarrow> logger \<times> (error + unit) \<times> world" where
  "initLogFiles_v2 w =
     (let (date, w1) = new_Date w;
          this = \<lparr>logFile = path_join (module_dir w)
                              [''..'', ''logs'', ''log_'' @ logDateString date @ ''.txt''],
                  reportFile = path_join (module_dir w)
                              [''..'', ''logs'', ''report_'' @ logDateString date @ ''.txt'']\<rparr>
      in (this, ensureLogFileExists this w1))"

text \<open>
  The constructor. Its first argument is the static field \<open>Logger.instance\<close> before
  the call; the result holds the field after the call, what \<open>new Logger()\<close> evaluates
  to, and the world. The field is set before initLogFiles runs.
\<close>

definition new_Logger_v1 :: "logger option \<Rightarrow> world \<Rightarrow> logger option \<times> logger \<times> world" where
  "new_Logger_v1 instance w =
     (case instance of
        None \<Rightarrow> (let (this, w1) = initLogFiles_v1 w in (Some this, this, w1))
      | Some i \<Rightarrow> (Some i, i, w))"

definition new_Logger_v2 ::
  "logger option \<Rightarrow> world \<Rightarrow> logger option \<times> (error + logger) \<times> world" where
  "new_Logger_v2 instance w =
     (case instance of
        None \<Rightarrow>
          (case initLogFiles_v2 w of
             (this, Inl e, w1) \<Rightarrow> (Some this, Inl e, w1)
           | (this, Inr u, w1) \<Rightarrow> (Some this, Inr this, w1))
      | Some i \<Rightarrow> (Some i, Inr i, w))"

definition logType :: "logger \<Rightarrow> string \<Rightarrow> log_type" where
  "logType this ty =
     (let t = toLowerCase ty in
      if t = ''error'' \<or> t = ''e'' then
        \<lparr>type = ''[ERROR]'', report = True, onConsole = True, file' = logFile this\<rparr>
      else if t = ''warning'' \<or> t = ''w'' then
        \<lparr>type = ''[WARNING]'', report = False, onConsole = False, file' = logFile this\<rparr>
      else if t = ''report'' \<or> t = ''r'' then
        \<lparr>type = ''[INFO]'', report = True, onConsole = False, file' = reportFile this\<rparr>
      else if t = ''info'' \<or> t = ''i'' then
        \<lparr>type = ''[INFO]'', report = False, onConsole = False, file' = logFile this\<rparr>
      else
        \<lparr>type = ''[INFO]'', report = False, onConsole = False, file' = logFile this\<rparr>)"

text \<open>
  \<open>log\<close>. Variant 1 labels every line that is not a report with the class and the
  method of the caller, read from the stack; \<open>callerLine.match\<close> throws when the
  stack has no fourth line. Nothing in either variant catches what
  \<open>appendFileSync\<close> throws: the promise of \<open>log\<close> is then rejected.
\<close>

definition log_v1 :: "logger \<Rightarrow> string \<Rightarrow> string \<Rightarrow> world \<Rightarrow> (error + unit) \<times> world" where
  "log_v1 this message ty w =
     (let logType = logType this ty in
      and_then
        (if ty \<noteq> ''report'' then
           (let (callerInfo, w1) = new_Error_stack w in
            if callerInfo = NoLine then
              (Inl (TypeError (''Cannot read properties of undefined (reading ''
                               @ quote @ ''match'' @ quote @ '')'')), w1)
            else
              (let methodName = (case callerInfo of
                                   Caller c \<Rightarrow> last (split CHR ''.'' c)
                                 | _ \<Rightarrow> ''Global'');
                   className = (case callerInfo of
                                  Caller c \<Rightarrow> hd (split CHR ''.'' c)
                                | _ \<Rightarrow> ''Global'');
                   (now, w2) = new_Date w1
               in (Inr (''['' @ iso now @ ''] '' @ type logType @ '' '' @ className @ ''.''
                        @ methodName @ '': '' @ message), w2)))
         else
           (let (now, w1) = new_Date w
            in (Inr (''['' @ iso now @ ''] '' @ message), w1)))
        (\<lambda>logMessage w3.
           fs_appendFileSync (file' logType) (logMessage @ newline)
             (if onConsole logType then console_log logMessage w3 else w3)))"

definition log_v2 :: "logger \<Rightarrow> string \<Rightarrow> string \<Rightarrow> world \<Rightarrow> (error + unit) \<times> world" where
  "log_v2 this message ty w =
     (let logType = logType this ty;
          (now, w1) = new_Date w;
          logMessage = ''['' @ iso now @ ''] '' @ type logType @ '' '' @ message
      in fs_appendFileSync (file' logType) (logMessage @ newline)
           (if onConsole logType then console_log logMessage w1 else w1))"

definition error_v1 :: "logger \<Rightarrow> string \<Rightarrow> world \<Rightarrow> (error + unit) \<times> world" where
  "error_v1 this message w = log_v1 this message ''error'' w"

definition error_v2 :: "logger \<Rightarrow> string \<Rightarrow> world \<Rightarrow> (error + unit) \<times> world" where
  "error_v2 this message w = log_v2 this message ''error'' w"

definition warning_v1 :: "logger \<Rightarrow> string \<Rightarrow> world \<Rightarrow> (error + unit) \<times> world" where
  "warning_v1 this message w = log_v1 this message ''warning'' w"

definition warning_v2 :: "logger \<Rightarrow> string \<Rightarrow> world \<Rightarrow> (error + unit) \<times> world" where
  "warning_v2 this message w = log_v2 this message ''warning'' w"

definition report_v1 :: "logger \<Rightarrow> string \<Rightarrow> world \<Rightarrow> (error + unit) \<times> world" where
  "report_v1 this message w =
     and_then (log_v1 this message ''report'' w) (\<lambda>_ w1. log_v1 this message ''info'' w1)"

definition report_v2 :: "logger \<Rightarrow> string \<Rightarrow> world \<Rightarrow> (error + unit) \<times> world" where
  "report_v2 this message w = log_v2 this message ''report'' w"

text \<open>
  Utils and Filer hold one logger, \<open>const logger = new Logger()\<close>, of whichever
  variant \<open>./logger\<close> is. They never await or catch a call of it, so of such a call
  only the effect on the world remains.
\<close>

definition logger_log :: "variant \<Rightarrow> logger \<Rightarrow> string \<Rightarrow> string \<Rightarrow> world \<Rightarrow> (error + unit) \<times> world" where
  "logger_log v this message ty w =
     (case v of V1 \<Rightarrow> log_v1 this message ty w | V2 \<Rightarrow> log_v2 this message ty w)"

definition logger_error :: "variant \<Rightarrow> logger \<Rightarrow> string \<Rightarrow> world \<Rightarrow> (error + unit) \<times> world" where
  "logger_error v this message w =
     (case v of V1 \<Rightarrow> error_v1 this message w | V2 \<Rightarrow> error_v2 this message w)"

definition detached :: "(error + 'a) \<times> world \<Rightarrow> world" where
  "detached r = snd r"

section \<open>Utils (src/lib/utils.js, lines 21 to 46)\<close>

text \<open>
  \<open>Math.floor(Math.random() * (max - min + 1)) + min\<close>, operator by operator, in
  double arithmetic; \<open>r\<close> is what \<open>Math.random()\<close> returned.
\<close>

definition random_between :: "real \<Rightarrow> jsval \<Rightarrow> jsval \<Rightarrow> jsval" where
  "random_between r minv maxv =
     js_add (Math_floor (js_mul (Num r) (js_add (js_sub maxv minv) (Num 1)))) minv"

definition getRandomInt :: "variant \<Rightarrow> logger \<Rightarrow> jsval \<Rightarrow> jsval \<Rightarrow> world \<Rightarrow> jsval \<times> world" where
  "getRandomInt v logger min0 maxv w =
     (let minv = (if min0 = Undefined then Num 0 else min0) in
      if \<not> truthy minv \<or> \<not> truthy maxv then
        (JFalse, detached (logger_error v logger ''No parameter were specified!'' w))
      else
        (let (r, w1) = Math_random w;
             rand = random_between r minv maxv
         in (rand, detached (logger_log v logger
                     (''A random int has been generated: '' @ template w1 rand) ''info'' w1))))"




section \<open>Filer (src/lib/utils.js, lines 103 to 198)\<close>

text \<open>
  Of the class Filer the operations embedded are \<open>doesFileExist\<close>, \<open>getFileStats\<close>,
  \<open>removeFile\<close>, \<open>writeToFile\<close> and \<open>updateFile\<close>. A path argument is a path of
  the file tree as it is.
\<close>

definition doesFileExist :: "path \<Rightarrow> world \<Rightarrow> (error + bool) \<times> world" where
  "doesFileExist filePath w =
     (case fs_access filePath w of
        (Inr u, w1) \<Rightarrow> (Inr True, w1)
      | (Inl error, w1) \<Rightarrow> (Inr False, w1))"

definition getFileStats :: "path \<Rightarrow> world \<Rightarrow> (error + stats) \<times> world" where
  "getFileStats filePath w =
     (case fs_stat filePath w of
        (Inl err, w1) \<Rightarrow> (Inl err, w1)
      | (Inr stats, w1) \<Rightarrow> (Inr stats, w1))"


definition writeToFile :: "variant \<Rightarrow> logger \<Rightarrow> string \<Rightarrow> path \<Rightarrow> world \<Rightarrow> (error + unit) \<times> world" where
  "writeToFile v logger stringToWrite filePath w =
     (case fs_writeFileSync filePath stringToWrite w of
        (Inr u, w1) \<Rightarrow>
          (Inr (), detached (logger_log v logger
                     (''New data has been written to '' @ render filePath) ''info'' w1))
      | (Inl error, w1) \<Rightarrow>
          (Inr (), detached (logger_error v logger
                     (render filePath @ '': '' @ error_message error) w1)))"

definition Date_now :: "world \<Rightarrow> int \<times> world" where
  "Date_now w = (millis (clock w (ticks w)), w\<lparr>ticks := Suc (ticks w)\<rparr>)"

text \<open>
  \<open>Math.floor(Date.now() - stats.mtime.getTime()) < timePeriod * 1000\<close>, in double
  arithmetic. Both times are whole milliseconds and \<open>age\<close> is their exact difference;
  a comparison with NaN is false.
\<close>

definition younger_than :: "int \<Rightarrow> jsval \<Rightarrow> bool" where
  "younger_than age timePeriod =
     js_less (Math_floor (fl (of_int age))) (js_mul timePeriod (Num 1000))"

text \<open>A generator of new data: it resolves to a text or throws, and may change the world.\<close>

type_synonym generator = "world \<Rightarrow> (error + string) \<times> world"

text \<open>
  \<open>updateFile\<close>. The flag computed first says whether the function returned from
  inside the age check. Whatever is thrown inside \<open>try\<close> ends in \<open>catch\<close>, which logs
  it; the promise is resolved in every case.
\<close>

definition updateFile ::
  "variant \<Rightarrow> logger \<Rightarrow> path \<Rightarrow> jsval \<Rightarrow> generator option \<Rightarrow> world \<Rightarrow> (error + unit) \<times> world" where
  "updateFile v logger filePath timePeriod0 generateDataMethod w =
     (let timePeriod = (if timePeriod0 = Undefined then Null else timePeriod0);
          body =
            and_then (doesFileExist filePath w) (\<lambda>exists w1.
            and_then
              (if exists then
                 and_then (getFileStats filePath w1) (\<lambda>stats w2.
                   (let (now, w3) = Date_now w2 in
                    if younger_than (now - stats_mtime stats) timePeriod then
                      (Inr True, detached (logger_log v logger
                         (''File content '' @ quote @ render filePath @ quote
                          @ '' are young enough to skip.'') ''info'' w3))
                    else (Inr False, w3)))
               else (Inr False, w1))
              (\<lambda>returned w4.
                 if returned then (Inr (), w4)
                 else
                   (let w5 = detached (logger_log v logger
                               (''File '' @ quote @ render filePath @ quote
                                @ '' is modified before '' @ template w4 timePeriod
                                @ '' seconds.'') ''info'' w4)
                    in and_then
                         (case generateDataMethod of
                            Some g \<Rightarrow> g w5
                          | None \<Rightarrow> (Inr [], w5))
                         (\<lambda>newData w6. writeToFile v logger newData filePath w6))))
      in case body of
           (Inl error, w7) \<Rightarrow>
             (Inr (), detached (logger_error v logger
                        (render filePath @ '': '' @ error_message error) w7))
         | (Inr u, w7) \<Rightarrow> (Inr (), w7))"

section \<open>The date stamp of the specification\<close>

text \<open>
  \<open>YYYYMMDD\<close> as the specification writes it: the year in four digits, the month
  (1 to 12) in two, the day of the month in two, each padded with zeros. It is stated
  here to compare \<open>logDateString\<close> with it.
\<close>

definition two_digits :: "nat \<Rightarrow> string" where
  "two_digits n = [digit_char (n div 10 mod 10), digit_char (n mod 10)]"

definition spec_YYYYMMDD :: "nat \<Rightarrow> nat \<Rightarrow> nat \<Rightarrow> string" where
  "spec_YYYYMMDD y m d =
     [digit_char (y div 1000 mod 10), digit_char (y div 100 mod 10),
      digit_char (y div 10 mod 10), digit_char (y mod 10)]
     @ two_digits m @ two_digits d"

section \<open>A concrete world\<close>

text \<open>
  An application in \<open>/srv/app\<close> that has the library installed under
  \<open>node_modules\<close>, on 3 November 2026, with the log directory and both daily files
  in place and a cache file that was written ten seconds ago.
\<close>

definition demo_instant :: instant where
  "demo_instant =
     \<lparr>millis = 1793692800000, iso = ''2026-11-03T08:00:00.000Z'',
      fullYear = 2026, month0 = 10, dayOfMonth = 3\<rparr>"

definition demo_logger :: logger where
  "demo_logger =
     \<lparr>logFile = [''srv'', ''app'', ''logs'', ''log_20261103.txt''],
      reportFile = [''srv'', ''app'', ''logs'', ''report_20261103.txt'']\<rparr>"

definition demo_cache :: path where
  "demo_cache = [''srv'', ''app'', ''cache.txt'']"

definition demo_world :: world where
  "demo_world =
     \<lparr>fs = [Nil \<mapsto> Dir 0,
             [''srv''] \<mapsto> Dir 0,
             [''srv'', ''app''] \<mapsto> Dir 0,
             [''srv'', ''app'', ''logs''] \<mapsto> Dir 0,
             [''srv'', ''app'', ''logs'', ''log_20261103.txt''] \<mapsto> File [] 1793692000000,
             [''srv'', ''app'', ''logs'', ''report_20261103.txt''] \<mapsto> File [] 1793692000000,
             [''srv'', ''app'', ''cache.txt''] \<mapsto> File ''old'' 1793692790000],
      readonly = (\<lambda>p. False),
      stdout = [],
      cwd = [''srv'', ''app''],
      module_dir = [''srv'', ''app'', ''node_modules'', ''js-kit'', ''lib''],
      clock = (\<lambda>k. demo_instant),
      ticks = 0,
      stacks = (\<lambda>k. Caller ''Object.<anonymous>''),
      captured = 0,
      randoms = (\<lambda>k. 1 / 2),
      draws = 0,
      number_text = (\<lambda>x. if x = 3 / 2 then ''1.5'' else ''2.5'')\<rparr>"


text \<open>The same world on a file system that is mounted read-only.\<close>

definition demo_world_readonly :: world where
  "demo_world_readonly = demo_world\<lparr>readonly := (\<lambda>p. True)\<rparr>"

section \<open>Level resolution\<close>

lemma toLowerCase_report: "toLowerCase ''report'' = ''report''"
  by (simp add: toLowerCase_def lower_char_def)

lemma logType_info:
  "logType this ''info'' =
     \<lparr>type = ''[INFO]'', report = False, onConsole = False, file' = logFile this\<rparr>"
  by (simp add: logType_def toLowerCase_def lower_char_def)

text \<open>
  Claim C10. \<open>logType\<close> is defined for every string. A level that, lowercased, is
  none of error, e, warning, w, report, r, info, i resolves to exactly what info
  resolves to: tag \<open>[INFO]\<close>, the general log file as destination, no console echo.
  Hence \<open>log\<close> with such a level does, in both variants, what \<open>log\<close> with level
  info does.
\<close>

theorem logType_unrecognised_is_info:
  assumes "toLowerCase ty \<notin>
             {''error'', ''e'', ''warning'', ''w'', ''report'', ''r'', ''info'', ''i''}"
  shows "logType this ty =
           \<lparr>type = ''[INFO]'', report = False, onConsole = False, file' = logFile this\<rparr>
       \<and> logType this ty = logType this ''info''
       \<and> log_v1 this message ty w = log_v1 this message ''info'' w
       \<and> log_v2 this message ty w = log_v2 this message ''info'' w"
proof -
  have ty: "logType this ty =
              \<lparr>type = ''[INFO]'', report = False, onConsole = False, file' = logFile this\<rparr>"
    using assms by (simp add: logType_def Let_def)
  have "ty \<noteq> ''report''"
    using assms toLowerCase_report by auto
  then have "log_v1 this message ty w = log_v1 this message ''info'' w"
    by (simp add: log_v1_def ty logType_info)
  moreover have "log_v2 this message ty w = log_v2 this message ''info'' w"
    by (simp add: log_v2_def ty logType_info)
  ultimately show ?thesis using ty logType_info by simp
qed

theorem logType_unrecognised_is_info_witness:
  "toLowerCase ''Debug'' \<notin>
     {''error'', ''e'', ''warning'', ''w'', ''report'', ''r'', ''info'', ''i''}
   \<and> logType demo_logger ''Debug'' =
       \<lparr>type = ''[INFO]'', report = False, onConsole = False,
        file' = [''srv'', ''app'', ''logs'', ''log_20261103.txt'']\<rparr>
   \<and> log_v2 demo_logger ''hello'' ''Debug'' demo_world
       = log_v2 demo_logger ''hello'' ''info'' demo_world"
proof -
  have h: "toLowerCase ''Debug'' \<notin>
             {''error'', ''e'', ''warning'', ''w'', ''report'', ''r'', ''info'', ''i''}"
    by (simp add: toLowerCase_def lower_char_def)
  show ?thesis
    using h logType_unrecognised_is_info [OF h, of demo_logger "''hello''" demo_world]
    by (simp add: demo_logger_def)
qed

section \<open>What a call of log does\<close>

lemmas demo_defs = demo_world_def demo_world_readonly_def demo_logger_def demo_cache_def demo_instant_def

lemma open_for_write_cong:
  "fs w' = fs w \<Longrightarrow> readonly w' = readonly w \<Longrightarrow> open_for_write p w' = open_for_write p w"
  by (simp add: open_for_write_def is_dir_def)

lemma open_for_write_frame:
  "open_for_write p (w\<lparr>ticks := n\<rparr>) = open_for_write p w"
  "open_for_write p (w\<lparr>captured := k\<rparr>) = open_for_write p w"
  "open_for_write p (w\<lparr>draws := k\<rparr>) = open_for_write p w"
  "open_for_write p (console_log l w) = open_for_write p w"
  by (simp_all add: open_for_write_def is_dir_def console_log_def)

lemma fs_appendFileSync_ok:
  "open_for_write p w = None \<Longrightarrow>
   fs_appendFileSync p s w =
     (Inr (), w\<lparr>fs := (fs w)(p \<mapsto> File (old_content w p @ s) (os_time w))\<rparr>)"
  by (simp add: fs_appendFileSync_def)

lemma fs_appendFileSync_fail:
  "open_for_write p w = Some e \<Longrightarrow>
   fs_appendFileSync p s w = (Inl (SystemError e ''open'' p), w)"
  by (simp add: fs_appendFileSync_def)

lemma fst_fs_appendFileSync:
  "fst (fs_appendFileSync p s w) =
     (case open_for_write p w of None \<Rightarrow> Inr () | Some e \<Rightarrow> Inl (SystemError e ''open'' p))"
  by (simp add: fs_appendFileSync_def split: option.splits)

lemma log_v2_unfold:
  "log_v2 this message ty w =
     fs_appendFileSync (file' (logType this ty))
       (''['' @ iso (clock w (ticks w)) @ ''] '' @ type (logType this ty) @ '' '' @ message @ newline)
       (if onConsole (logType this ty)
        then console_log (''['' @ iso (clock w (ticks w)) @ ''] '' @ type (logType this ty) @ '' '' @ message)
               (w\<lparr>ticks := Suc (ticks w)\<rparr>)
        else w\<lparr>ticks := Suc (ticks w)\<rparr>)"
  by (simp add: log_v2_def new_Date_def Let_def)

lemma log_v1_report_unfold:
  "log_v1 this message ''report'' w =
     fs_appendFileSync (reportFile this)
       (''['' @ iso (clock w (ticks w)) @ ''] '' @ message @ newline)
       (w\<lparr>ticks := Suc (ticks w)\<rparr>)"
  by (simp add: log_v1_def new_Date_def Let_def and_then_def logType_def toLowerCase_report)

lemma fst_log_v2:
  "fst (log_v2 this message ty w) =
     (case open_for_write (file' (logType this ty)) w of
        None \<Rightarrow> Inr ()
      | Some e \<Rightarrow> Inl (SystemError e ''open'' (file' (logType this ty))))"
proof -
  let ?w1 = "if onConsole (logType this ty)
        then console_log (''['' @ iso (clock w (ticks w)) @ ''] '' @ type (logType this ty) @ '' '' @ message)
               (w\<lparr>ticks := Suc (ticks w)\<rparr>)
        else w\<lparr>ticks := Suc (ticks w)\<rparr>"
  have "open_for_write (file' (logType this ty)) ?w1 = open_for_write (file' (logType this ty)) w"
    by (rule open_for_write_cong) (simp_all add: console_log_def)
  then show ?thesis
    by (simp only: log_v2_unfold fst_fs_appendFileSync)
qed

lemma fst_log_v1:
  "fst (log_v1 this message ty w) =
     (if ty \<noteq> ''report'' \<and> stacks w (captured w) = NoLine
      then Inl (TypeError (''Cannot read properties of undefined (reading '' @ quote @ ''match'' @ quote @ '')''))
      else (case open_for_write (file' (logType this ty)) w of
              None \<Rightarrow> Inr ()
            | Some e \<Rightarrow> Inl (SystemError e ''open'' (file' (logType this ty)))))"
proof (cases "ty = ''report''")
  case True
  then show ?thesis
    by (simp add: log_v1_def new_Date_def Let_def and_then_def
        fst_fs_appendFileSync open_for_write_frame split: option.splits)
next
  case False
  then show ?thesis
    by (simp add: log_v1_def new_Date_def new_Error_stack_def Let_def and_then_def
        fst_fs_appendFileSync open_for_write_frame)
qed

lemma demo_readonly_open:
  "open_for_write [''srv'', ''app'', ''logs'', ''log_20261103.txt''] demo_world_readonly = Some EACCES"
  by (simp add: open_for_write_def is_dir_def demo_defs)

text \<open>
  Claim C3, as amended. \<open>log\<close> has no handler around the append: when the rendered
  line cannot be appended to the destination file, the promise of \<open>log\<close> is rejected
  with the error of the append, and when it can be appended the promise is resolved.
  This holds of variant 2, and of variant 1 for a call whose stack has a caller line
  or whose level is \<open>report\<close>; what variant 1 does without a caller line is not part
  of the statement.
\<close>

theorem log_rejects_iff_append_fails:
  "(fst (log_v2 this message ty w) = Inr ()
      \<longleftrightarrow> open_for_write (file' (logType this ty)) w = None)
 \<and> (ty = ''report'' \<or> stacks w (captured w) \<noteq> NoLine \<longrightarrow>
      (fst (log_v1 this message ty w) = Inr ()
         \<longleftrightarrow> open_for_write (file' (logType this ty)) w = None))
 \<and> (open_for_write (file' (logType this ty)) w = Some e
      \<longrightarrow> fst (log_v2 this message ty w) = Inl (SystemError e ''open'' (file' (logType this ty))))
 \<and> (open_for_write (file' (logType this ty)) w = Some e
        \<and> (ty = ''report'' \<or> stacks w (captured w) \<noteq> NoLine)
      \<longrightarrow> fst (log_v1 this message ty w) = Inl (SystemError e ''open'' (file' (logType this ty))))"
  by (auto simp add: fst_log_v2 fst_log_v1 split: option.splits)

theorem log_rejects_iff_append_fails_witness:
  "open_for_write (file' (logType demo_logger ''warning'')) demo_world_readonly = Some EACCES
   \<and> stacks demo_world_readonly (captured demo_world_readonly) \<noteq> NoLine
   \<and> fst (log_v2 demo_logger ''disk is full'' ''warning'' demo_world_readonly)
       = Inl (SystemError EACCES ''open'' [''srv'', ''app'', ''logs'', ''log_20261103.txt''])
   \<and> fst (log_v1 demo_logger ''disk is full'' ''warning'' demo_world_readonly)
       = Inl (SystemError EACCES ''open'' [''srv'', ''app'', ''logs'', ''log_20261103.txt''])
   \<and> open_for_write (file' (logType demo_logger ''warning'')) demo_world = None
   \<and> stacks demo_world (captured demo_world) \<noteq> NoLine
   \<and> fst (log_v2 demo_logger ''disk is full'' ''warning'' demo_world) = Inr ()
   \<and> fst (log_v1 demo_logger ''disk is full'' ''warning'' demo_world) = Inr ()"
proof -
  have lt: "file' (logType demo_logger ''warning'') = [''srv'', ''app'', ''logs'', ''log_20261103.txt'']"
    by (simp add: logType_def toLowerCase_def lower_char_def demo_logger_def)
  have h: "open_for_write (file' (logType demo_logger ''warning'')) demo_world_readonly = Some EACCES"
    by (simp only: lt demo_readonly_open)
  have s: "stacks demo_world_readonly (captured demo_world_readonly) \<noteq> NoLine"
    by (simp add: demo_defs)
  have "open_for_write [''srv'', ''app'', ''logs'', ''log_20261103.txt''] demo_world = None"
    by (simp add: open_for_write_def is_dir_def demo_defs)
  then have h': "open_for_write (file' (logType demo_logger ''warning'')) demo_world = None"
    by (simp only: lt)
  have s': "stacks demo_world (captured demo_world) \<noteq> NoLine"
    by (simp add: demo_defs)
  note rejected = log_rejects_iff_append_fails
      [of demo_logger "''disk is full''" "''warning''" demo_world_readonly EACCES]
  note resolved = log_rejects_iff_append_fails
      [of demo_logger "''disk is full''" "''warning''" demo_world EACCES]
  have r2: "fst (log_v2 demo_logger ''disk is full'' ''warning'' demo_world_readonly)
       = Inl (SystemError EACCES ''open'' (file' (logType demo_logger ''warning'')))"
    using rejected h by blast
  have r1: "fst (log_v1 demo_logger ''disk is full'' ''warning'' demo_world_readonly)
       = Inl (SystemError EACCES ''open'' (file' (logType demo_logger ''warning'')))"
    using rejected h s by blast
  have o2: "fst (log_v2 demo_logger ''disk is full'' ''warning'' demo_world) = Inr ()"
    using resolved h' by blast
  have o1: "fst (log_v1 demo_logger ''disk is full'' ''warning'' demo_world) = Inr ()"
    using resolved h' s' by blast
  show ?thesis
    using h s h' s' o1 o2 r1 [unfolded lt] r2 [unfolded lt] by blast
qed

text \<open>
  Claim C3 as stated fails: on a read-only file system \<open>log('hello', 'info')\<close>
  yields a rejected promise in both variants.
\<close>

theorem log_rejected_counterexample:
  "fst (log_v2 demo_logger ''hello'' ''info'' demo_world_readonly)
     = Inl (SystemError EACCES ''open'' [''srv'', ''app'', ''logs'', ''log_20261103.txt''])
   \<and> fst (log_v1 demo_logger ''hello'' ''info'' demo_world_readonly)
     = Inl (SystemError EACCES ''open'' [''srv'', ''app'', ''logs'', ''log_20261103.txt''])"
  by (simp add: log_v2_def log_v1_def and_then_def Let_def logType_def toLowerCase_def lower_char_def
      new_Date_def new_Error_stack_def fs_appendFileSync_def open_for_write_def is_dir_def
      console_log_def path_dirname_def demo_defs)

section \<open>What a call of report does\<close>

lemma logType_report:
  "logType this ''report'' =
     \<lparr>type = ''[INFO]'', report = True, onConsole = False, file' = reportFile this\<rparr>"
  by (simp add: logType_def toLowerCase_def lower_char_def)

lemma fs_appendFileSync_frame:
  "stdout (snd (fs_appendFileSync p s w)) = stdout w"
  "q \<noteq> p \<Longrightarrow> fs (snd (fs_appendFileSync p s w)) q = fs w q"
  "q \<noteq> p \<Longrightarrow> old_content (snd (fs_appendFileSync p s w)) q = old_content w q"
  "readonly (snd (fs_appendFileSync p s w)) = readonly w"
  "clock (snd (fs_appendFileSync p s w)) = clock w"
  "ticks (snd (fs_appendFileSync p s w)) = ticks w"
  "stacks (snd (fs_appendFileSync p s w)) = stacks w"
  "captured (snd (fs_appendFileSync p s w)) = captured w"
  "randoms (snd (fs_appendFileSync p s w)) = randoms w"
  "draws (snd (fs_appendFileSync p s w)) = draws w"
  by (simp_all add: fs_appendFileSync_def old_content_def split: option.splits)

lemma fs_appendFileSync_content:
  "open_for_write p w = None \<Longrightarrow>
   old_content (snd (fs_appendFileSync p s w)) p = old_content w p @ s"
  by (simp add: fs_appendFileSync_def old_content_def)

lemma old_content_frame:
  "old_content (w\<lparr>ticks := n\<rparr>) p = old_content w p"
  "old_content (w\<lparr>captured := k\<rparr>) p = old_content w p"
  "old_content (w\<lparr>draws := k\<rparr>) p = old_content w p"
  "old_content (console_log l w) p = old_content w p"
  by (simp_all add: old_content_def console_log_def)

lemma log_v1_info_unfold:
  "stacks w (captured w) \<noteq> NoLine \<Longrightarrow>
   log_v1 this message ''info'' w =
     fs_appendFileSync (logFile this)
       (''['' @ iso (clock w (ticks w)) @ ''] [INFO] ''
        @ (case stacks w (captured w) of Caller c \<Rightarrow> hd (split CHR ''.'' c) | _ \<Rightarrow> ''Global'')
        @ ''.''
        @ (case stacks w (captured w) of Caller c \<Rightarrow> last (split CHR ''.'' c) | _ \<Rightarrow> ''Global'')
        @ '': '' @ message @ newline)
       (w\<lparr>captured := Suc (captured w), ticks := Suc (ticks w)\<rparr>)"
  by (simp add: log_v1_def new_Date_def new_Error_stack_def Let_def and_then_def logType_info)

lemma log_v1_info_NoLine:
  "stacks w (captured w) = NoLine \<Longrightarrow>
   snd (log_v1 this message ''info'' w) = w\<lparr>captured := Suc (captured w)\<rparr>
   \<and> fst (log_v1 this message ''info'' w) \<noteq> Inr ()"
  by (simp add: log_v1_def new_Error_stack_def Let_def and_then_def)

lemma report_v2_unfold:
  "report_v2 this message w =
     fs_appendFileSync (reportFile this)
       (''['' @ iso (clock w (ticks w)) @ ''] [INFO] '' @ message @ newline)
       (w\<lparr>ticks := Suc (ticks w)\<rparr>)"
  by (simp add: report_v2_def log_v2_unfold logType_report)

lemma report_v1_cases:
  "report_v1 this message w =
     (case log_v1 this message ''report'' w of
        (Inl e, w1) \<Rightarrow> (Inl e, w1)
      | (Inr u, w1) \<Rightarrow> log_v1 this message ''info'' w1)"
  by (simp add: report_v1_def and_then_def split: prod.splits sum.splits)


lemma log_v1_frame:
  "\<not> onConsole (logType this ty) \<Longrightarrow> stdout (snd (log_v1 this message ty w)) = stdout w"
  "p \<noteq> file' (logType this ty) \<Longrightarrow> fs (snd (log_v1 this message ty w)) p = fs w p"
  "readonly (snd (log_v1 this message ty w)) = readonly w"
  "clock (snd (log_v1 this message ty w)) = clock w"
  "stacks (snd (log_v1 this message ty w)) = stacks w"
  "randoms (snd (log_v1 this message ty w)) = randoms w"
  "draws (snd (log_v1 this message ty w)) = draws w"
  by (cases "ty = ''report''"; cases "stacks w (captured w) = NoLine";
      simp add: log_v1_def new_Date_def new_Error_stack_def Let_def and_then_def
        fs_appendFileSync_frame console_log_def)+

lemma log_v2_frame:
  "\<not> onConsole (logType this ty) \<Longrightarrow> stdout (snd (log_v2 this message ty w)) = stdout w"
  "p \<noteq> file' (logType this ty) \<Longrightarrow> fs (snd (log_v2 this message ty w)) p = fs w p"
  "readonly (snd (log_v2 this message ty w)) = readonly w"
  "clock (snd (log_v2 this message ty w)) = clock w"
  "stacks (snd (log_v2 this message ty w)) = stacks w"
  "randoms (snd (log_v2 this message ty w)) = randoms w"
  "draws (snd (log_v2 this message ty w)) = draws w"
  by (simp_all add: log_v2_unfold fs_appendFileSync_frame console_log_def)

lemma logType_fields:
  "\<not> onConsole (logType this ''info'')" "file' (logType this ''info'') = logFile this"
  "\<not> onConsole (logType this ''report'')" "file' (logType this ''report'') = reportFile this"
  by (simp_all add: logType_info logType_report)

lemma report_v2_content:
  assumes "open_for_write (reportFile this) w = None"
  shows "old_content (snd (report_v2 this message w)) (reportFile this)
           = old_content w (reportFile this)
             @ ''['' @ iso (clock w (ticks w)) @ ''] [INFO] '' @ message @ newline"
proof -
  have "open_for_write (reportFile this) (w\<lparr>ticks := Suc (ticks w)\<rparr>) = None"
    using assms by (simp add: open_for_write_frame)
  then show ?thesis
    by (simp add: report_v2_unfold fs_appendFileSync_content old_content_frame)
qed

lemma report_v1_first:
  assumes "open_for_write (reportFile this) w = None"
  shows "log_v1 this message ''report'' w =
           (Inr (), snd (fs_appendFileSync (reportFile this)
                           (''['' @ iso (clock w (ticks w)) @ ''] '' @ message @ newline)
                           (w\<lparr>ticks := Suc (ticks w)\<rparr>)))"
    and "old_content (snd (log_v1 this message ''report'' w)) (reportFile this)
           = old_content w (reportFile this)
             @ ''['' @ iso (clock w (ticks w)) @ ''] '' @ message @ newline"
proof -
  have o: "open_for_write (reportFile this) (w\<lparr>ticks := Suc (ticks w)\<rparr>) = None"
    using assms by (simp add: open_for_write_frame)
  show "log_v1 this message ''report'' w =
           (Inr (), snd (fs_appendFileSync (reportFile this)
                           (''['' @ iso (clock w (ticks w)) @ ''] '' @ message @ newline)
                           (w\<lparr>ticks := Suc (ticks w)\<rparr>)))"
    by (simp add: log_v1_report_unfold fs_appendFileSync_ok [OF o])
  show "old_content (snd (log_v1 this message ''report'' w)) (reportFile this)
           = old_content w (reportFile this)
             @ ''['' @ iso (clock w (ticks w)) @ ''] '' @ message @ newline"
    by (simp add: log_v1_report_unfold fs_appendFileSync_content [OF o] old_content_frame)
qed

lemma log_v1_info_other_content:
  assumes "p \<noteq> logFile this"
  shows "old_content (snd (log_v1 this message ''info'' w)) p = old_content w p"
  using assms by (simp add: old_content_def log_v1_frame logType_fields)

lemma report_v1_content:
  assumes o: "open_for_write (reportFile this) w = None"
    and d: "logFile this \<noteq> reportFile this"
  shows "old_content (snd (report_v1 this message w)) (reportFile this)
           = old_content w (reportFile this)
             @ ''['' @ iso (clock w (ticks w)) @ ''] '' @ message @ newline"
proof -
  have "snd (report_v1 this message w)
          = snd (log_v1 this message ''info'' (snd (log_v1 this message ''report'' w)))"
    by (simp add: report_v1_cases report_v1_first(1) [OF o])
  then show ?thesis
    using d by (simp add: log_v1_info_other_content report_v1_first(2) [OF o])
qed

lemma report_v1_log_content:
  assumes ok: "fst (report_v1 this message w) = Inr ()"
    and d: "logFile this \<noteq> reportFile this"
  shows "open_for_write (reportFile this) w = None"
    and "old_content (snd (report_v1 this message w)) (logFile this)
           = old_content w (logFile this)
             @ ''['' @ iso (clock w (Suc (ticks w))) @ ''] [INFO] ''
             @ (case stacks w (captured w) of
                  Caller c \<Rightarrow> hd (split CHR ''.'' c) | _ \<Rightarrow> ''Global'')
             @ ''.''
             @ (case stacks w (captured w) of
                  Caller c \<Rightarrow> last (split CHR ''.'' c) | _ \<Rightarrow> ''Global'')
             @ '': '' @ message @ newline"
proof -
  let ?w1 = "snd (log_v1 this message ''report'' w)"
  have r1: "fst (log_v1 this message ''report'' w) = Inr ()"
    using ok by (simp add: report_v1_cases split: prod.splits sum.splits)
  then show o: "open_for_write (reportFile this) w = None"
    by (simp add: fst_log_v1 logType_fields split: option.splits)
  have rep: "report_v1 this message w = log_v1 this message ''info'' ?w1"
    by (simp add: report_v1_cases report_v1_first(1) [OF o])
  have r2: "fst (log_v1 this message ''info'' ?w1) = Inr ()"
    using ok rep by simp
  have st: "stacks ?w1 (captured ?w1) \<noteq> NoLine"
    and o2: "open_for_write (logFile this) ?w1 = None"
    using r2 by (simp_all add: fst_log_v1 logType_fields split: if_splits option.splits)
  have t1: "ticks ?w1 = Suc (ticks w)" and c1: "clock ?w1 = clock w"
    and s1: "stacks ?w1 = stacks w" and k1: "captured ?w1 = captured w"
    by (simp_all add: log_v1_report_unfold fs_appendFileSync_frame)
  have oc: "old_content ?w1 (logFile this) = old_content w (logFile this)"
    using d by (simp add: log_v1_report_unfold fs_appendFileSync_frame old_content_frame)
  have "old_content (snd (report_v1 this message w)) (logFile this)
          = old_content w (logFile this)
            @ ''['' @ iso (clock w (Suc (ticks w))) @ ''] [INFO] ''
            @ (case stacks ?w1 (captured ?w1) of
                 Caller c \<Rightarrow> hd (split CHR ''.'' c) | _ \<Rightarrow> ''Global'')
            @ ''.''
            @ (case stacks ?w1 (captured ?w1) of
                 Caller c \<Rightarrow> last (split CHR ''.'' c) | _ \<Rightarrow> ''Global'')
            @ '': '' @ message @ newline"
    unfolding rep log_v1_info_unfold [OF st]
    by (simp add: fs_appendFileSync_content open_for_write_frame o2 old_content_frame t1 c1 oc)
  then show "old_content (snd (report_v1 this message w)) (logFile this)
           = old_content w (logFile this)
             @ ''['' @ iso (clock w (Suc (ticks w))) @ ''] [INFO] ''
             @ (case stacks w (captured w) of
                  Caller c \<Rightarrow> hd (split CHR ''.'' c) | _ \<Rightarrow> ''Global'')
             @ ''.''
             @ (case stacks w (captured w) of
                  Caller c \<Rightarrow> last (split CHR ''.'' c) | _ \<Rightarrow> ''Global'')
             @ '': '' @ message @ newline"
    by (simp only: s1 k1)
qed

text \<open>
  Claim C5, as amended. When the report file can be appended to, the text that
  \<open>report(message)\<close> adds to it is \<open>[timestamp] message\<close> and a newline in variant 1,
  with no level tag, and \<open>[timestamp] [INFO] message\<close> and a newline in variant 2, which
  renders every level with its tag.
\<close>
theorem report_line_format:
  assumes "open_for_write (reportFile this) w = None"
  shows "(logFile this \<noteq> reportFile this \<longrightarrow>
            old_content (snd (report_v1 this message w)) (reportFile this)
              = old_content w (reportFile this)
                @ ''['' @ iso (clock w (ticks w)) @ ''] '' @ message @ newline)
       \<and> old_content (snd (report_v2 this message w)) (reportFile this)
              = old_content w (reportFile this)
                @ ''['' @ iso (clock w (ticks w)) @ ''] [INFO] '' @ message @ newline"
  using assms report_v1_content report_v2_content by blast

theorem report_line_format_witness:
  "open_for_write (reportFile demo_logger) demo_world = None
   \<and> logFile demo_logger \<noteq> reportFile demo_logger
   \<and> old_content (snd (report_v1 demo_logger ''hello'' demo_world)) (reportFile demo_logger)
       = ''[2026-11-03T08:00:00.000Z] hello'' @ newline
   \<and> old_content (snd (report_v2 demo_logger ''hello'' demo_world)) (reportFile demo_logger)
       = ''[2026-11-03T08:00:00.000Z] [INFO] hello'' @ newline"
proof -
  have h: "open_for_write (reportFile demo_logger) demo_world = None"
    by (simp add: open_for_write_def is_dir_def demo_defs)
  have d: "logFile demo_logger \<noteq> reportFile demo_logger"
    by (simp add: demo_defs)
  have c: "old_content demo_world (reportFile demo_logger) = []"
    by (simp add: old_content_def demo_defs)
  have t: "iso (clock demo_world (ticks demo_world)) = ''2026-11-03T08:00:00.000Z''"
    by (simp add: demo_defs)
  show ?thesis
    using h d report_line_format [OF h, of "''hello''"]
    by (simp add: c t)
qed

text \<open>
  Claim C5 as stated fails for variant 2: the line it writes for \<open>report('hello')\<close>
  carries the tag \<open>[INFO]\<close>.
\<close>

theorem report_v2_line_has_tag_counterexample:
  "old_content (snd (report_v2 demo_logger ''hello'' demo_world)) (reportFile demo_logger)
     = ''[2026-11-03T08:00:00.000Z] [INFO] hello'' @ newline
   \<and> old_content (snd (report_v2 demo_logger ''hello'' demo_world)) (reportFile demo_logger)
     \<noteq> ''[2026-11-03T08:00:00.000Z] hello'' @ newline"
  by (simp add: report_v2_def log_v2_def Let_def logType_def toLowerCase_def lower_char_def
      new_Date_def fs_appendFileSync_def open_for_write_def is_dir_def
      old_content_def newline_def demo_defs)

text \<open>
  Claim C2, as amended. \<open>report(message)\<close> writes nothing to standard output. In
  variant 2 it touches no file but the report file, to which, when it resolves, it has
  appended the one rendered line. In variant 1 it touches no file but the report file
  and the general log file: when it resolves, it has appended one line to the report
  file and, by its second call of \<open>log\<close>, exactly the one line
  \<open>[timestamp] [INFO] Class.method: message\<close> to the general log file, where
  \<open>Class.method\<close> is the label that \<open>log\<close> reads from the caller line of the stack.
\<close>
theorem report_effects:
  assumes d: "logFile this \<noteq> reportFile this"
  shows "stdout (snd (report_v1 this message w)) = stdout w
       \<and> stdout (snd (report_v2 this message w)) = stdout w
       \<and> (\<forall>p. p \<noteq> reportFile this \<longrightarrow> fs (snd (report_v2 this message w)) p = fs w p)
       \<and> (\<forall>p. p \<noteq> reportFile this \<and> p \<noteq> logFile this
              \<longrightarrow> fs (snd (report_v1 this message w)) p = fs w p)
       \<and> (fst (report_v2 this message w) = Inr () \<longrightarrow>
            old_content (snd (report_v2 this message w)) (reportFile this)
              = old_content w (reportFile this)
                @ ''['' @ iso (clock w (ticks w)) @ ''] [INFO] '' @ message @ newline)
       \<and> (fst (report_v1 this message w) = Inr () \<longrightarrow>
            old_content (snd (report_v1 this message w)) (reportFile this)
              = old_content w (reportFile this)
                @ ''['' @ iso (clock w (ticks w)) @ ''] '' @ message @ newline
            \<and> old_content (snd (report_v1 this message w)) (logFile this)
                = old_content w (logFile this)
                  @ ''['' @ iso (clock w (Suc (ticks w))) @ ''] [INFO] ''
                  @ (case stacks w (captured w) of
                       Caller c \<Rightarrow> hd (split CHR ''.'' c) | _ \<Rightarrow> ''Global'')
                  @ ''.''
                  @ (case stacks w (captured w) of
                       Caller c \<Rightarrow> last (split CHR ''.'' c) | _ \<Rightarrow> ''Global'')
                  @ '': '' @ message @ newline)"
proof -
  obtain r1 w1 where first: "log_v1 this message ''report'' w = (r1, w1)"
    by (cases "log_v1 this message ''report'' w")
  have w1: "w1 = snd (log_v1 this message ''report'' w)"
    using first by simp
  have so1: "stdout w1 = stdout w"
    unfolding w1 by (simp add: log_v1_frame logType_fields)
  have fs1: "\<And>p. p \<noteq> reportFile this \<Longrightarrow> fs w1 p = fs w p"
    unfolding w1 by (simp add: log_v1_frame logType_fields)
  have A1: "stdout (snd (report_v1 this message w)) = stdout w"
    by (cases r1) (simp_all add: report_v1_cases first so1 log_v1_frame logType_fields)
  have A2: "stdout (snd (report_v2 this message w)) = stdout w"
    by (simp add: report_v2_def log_v2_frame logType_fields)
  have B: "fs (snd (report_v2 this message w)) p = fs w p" if "p \<noteq> reportFile this" for p
    using that by (simp add: report_v2_def log_v2_frame logType_fields)
  have C: "fs (snd (report_v1 this message w)) p = fs w p"
    if "p \<noteq> reportFile this \<and> p \<noteq> logFile this" for p
    using that
    by (cases r1) (simp_all add: report_v1_cases first fs1 log_v1_frame logType_fields)
  have D: "old_content (snd (report_v2 this message w)) (reportFile this)
              = old_content w (reportFile this)
                @ ''['' @ iso (clock w (ticks w)) @ ''] [INFO] '' @ message @ newline"
    if ok: "fst (report_v2 this message w) = Inr ()"
  proof -
    have "open_for_write (reportFile this) w = None"
      using ok by (simp add: report_v2_def fst_log_v2 logType_fields split: option.splits)
    then show ?thesis
      by (rule report_v2_content)
  qed
  have E: "old_content (snd (report_v1 this message w)) (reportFile this)
              = old_content w (reportFile this)
                @ ''['' @ iso (clock w (ticks w)) @ ''] '' @ message @ newline
            \<and> old_content (snd (report_v1 this message w)) (logFile this)
                = old_content w (logFile this)
                  @ ''['' @ iso (clock w (Suc (ticks w))) @ ''] [INFO] ''
                  @ (case stacks w (captured w) of
                       Caller c \<Rightarrow> hd (split CHR ''.'' c) | _ \<Rightarrow> ''Global'')
                  @ ''.''
                  @ (case stacks w (captured w) of
                       Caller c \<Rightarrow> last (split CHR ''.'' c) | _ \<Rightarrow> ''Global'')
                  @ '': '' @ message @ newline"
    if ok: "fst (report_v1 this message w) = Inr ()"
    using report_v1_log_content [OF ok d] report_v1_content [OF _ d] by blast
  show ?thesis
    using A1 A2 B C D E by blast
qed


lemmas eval_defs = report_v1_def report_v2_def log_v1_def log_v2_def error_v1_def error_v2_def
  logger_log_def logger_error_def detached_def and_then_def Let_def
  logType_def toLowerCase_def lower_char_def new_Date_def new_Error_stack_def console_log_def
  fs_appendFileSync_def fs_writeFileSync_def open_for_write_def is_dir_def old_content_def
  os_time_def path_dirname_def newline_def quote_def

theorem report_effects_witness:
  "logFile demo_logger \<noteq> reportFile demo_logger
   \<and> fst (report_v1 demo_logger ''hello'' demo_world) = Inr ()
   \<and> fst (report_v2 demo_logger ''hello'' demo_world) = Inr ()
   \<and> stdout (snd (report_v1 demo_logger ''hello'' demo_world)) = []
   \<and> stdout (snd (report_v2 demo_logger ''hello'' demo_world)) = []
   \<and> fs (snd (report_v2 demo_logger ''hello'' demo_world)) (logFile demo_logger)
       = Some (File [] 1793692000000)
   \<and> fs (snd (report_v1 demo_logger ''hello'' demo_world)) demo_cache
       = Some (File ''old'' 1793692790000)
   \<and> old_content (snd (report_v2 demo_logger ''hello'' demo_world)) (reportFile demo_logger)
       = ''[2026-11-03T08:00:00.000Z] [INFO] hello'' @ newline
   \<and> old_content (snd (report_v1 demo_logger ''hello'' demo_world)) (reportFile demo_logger)
       = ''[2026-11-03T08:00:00.000Z] hello'' @ newline
   \<and> old_content (snd (report_v1 demo_logger ''hello'' demo_world)) (logFile demo_logger)
       = ''[2026-11-03T08:00:00.000Z] [INFO] Object.<anonymous>: hello'' @ newline"
proof -
  have d: "logFile demo_logger \<noteq> reportFile demo_logger"
    by (simp add: demo_defs)
  have ok1: "fst (report_v1 demo_logger ''hello'' demo_world) = Inr ()"
    by (simp add: eval_defs demo_defs)
  have ok2: "fst (report_v2 demo_logger ''hello'' demo_world) = Inr ()"
    by (simp add: eval_defs demo_defs)
  have p1: "logFile demo_logger \<noteq> reportFile demo_logger
            \<and> demo_cache \<noteq> reportFile demo_logger \<and> demo_cache \<noteq> logFile demo_logger"
    by (simp add: demo_defs)
  have w: "stdout demo_world = []"
    "fs demo_world (logFile demo_logger) = Some (File [] 1793692000000)"
    "fs demo_world demo_cache = Some (File ''old'' 1793692790000)"
    "old_content demo_world (reportFile demo_logger) = []"
    "old_content demo_world (logFile demo_logger) = []"
    "iso (clock demo_world (ticks demo_world)) = ''2026-11-03T08:00:00.000Z''"
    "iso (clock demo_world (Suc (ticks demo_world))) = ''2026-11-03T08:00:00.000Z''"
    "stacks demo_world (captured demo_world) = Caller ''Object.<anonymous>''"
    by (simp_all add: old_content_def demo_defs)
  show ?thesis
    using d ok1 ok2 p1 report_effects [OF d, of "''hello''" demo_world]
    by (simp add: w)
qed

text \<open>
  Claim C2 as stated fails for variant 1: after \<open>report('hello')\<close> the general log
  file, empty before, holds a line.
\<close>

theorem report_v1_also_logs_counterexample:
  "old_content demo_world (logFile demo_logger) = []
   \<and> old_content (snd (report_v1 demo_logger ''hello'' demo_world)) (logFile demo_logger)
       = ''[2026-11-03T08:00:00.000Z] [INFO] Object.<anonymous>: hello'' @ newline"
  by (simp add: eval_defs demo_defs)

section \<open>Where the log file lies\<close>

lemma string_of_nat_1: "n < 10 \<Longrightarrow> string_of_nat n = [digit_char n]"
  by (subst string_of_nat.simps) simp

lemma string_of_nat_rec:
  "10 \<le> n \<Longrightarrow> string_of_nat n = string_of_nat (n div 10) @ [digit_char (n mod 10)]"
  by (subst string_of_nat.simps) simp

lemma string_of_nat_2:
  assumes "10 \<le> n" "n < 100"
  shows "string_of_nat n = [digit_char (n div 10), digit_char (n mod 10)]"
proof -
  have "n div 10 < 10" using assms by simp
  then show ?thesis
    using assms by (simp add: string_of_nat_rec string_of_nat_1)
qed

lemma string_of_nat_3:
  assumes "100 \<le> n" "n < 1000"
  shows "string_of_nat n =
           [digit_char (n div 100), digit_char (n div 10 mod 10), digit_char (n mod 10)]"
proof -
  have b: "10 \<le> n div 10" "n div 10 < 100" "10 \<le> n" using assms by simp_all
  have e: "n div 10 div 10 = n div 100"
    by (simp add: div_mult2_eq [symmetric])
  have "string_of_nat n = string_of_nat (n div 10) @ [digit_char (n mod 10)]"
    using b by (simp only: string_of_nat_rec)
  also have "string_of_nat (n div 10) =
               [digit_char (n div 10 div 10), digit_char (n div 10 mod 10)]"
    using b by (simp only: string_of_nat_2)
  finally show ?thesis
    by (simp only: e append_Cons append_Nil)
qed

lemma string_of_nat_4:
  assumes "1000 \<le> n" "n < 10000"
  shows "string_of_nat n =
           [digit_char (n div 1000), digit_char (n div 100 mod 10),
            digit_char (n div 10 mod 10), digit_char (n mod 10)]"
proof -
  have b: "100 \<le> n div 10" "n div 10 < 1000" "10 \<le> n" using assms by simp_all
  have e: "n div 10 div 100 = n div 1000" "n div 10 div 10 = n div 100"
    by (simp_all add: div_mult2_eq [symmetric])
  have "string_of_nat n = string_of_nat (n div 10) @ [digit_char (n mod 10)]"
    using b by (simp only: string_of_nat_rec)
  also have "string_of_nat (n div 10) =
               [digit_char (n div 10 div 100), digit_char (n div 10 div 10 mod 10),
                digit_char (n div 10 mod 10)]"
    using b by (simp only: string_of_nat_3)
  finally show ?thesis
    by (simp only: e append_Cons append_Nil)
qed

lemma pad2: "n < 100 \<Longrightarrow> slice_last2 (CHR ''0'' # string_of_nat n) = two_digits n"
proof (cases "n < 10")
  case True
  then show ?thesis
    by (simp add: string_of_nat_1 slice_last2_def two_digits_def digit_char_def)
next
  case False
  assume "n < 100"
  with False show ?thesis
    by (simp add: string_of_nat_2 slice_last2_def two_digits_def)
qed

lemma logDateString_is_YYYYMMDD:
  assumes "1000 \<le> fullYear d" "fullYear d \<le> 9999" "month0 d < 12" "dayOfMonth d \<le> 31"
  shows "logDateString d = spec_YYYYMMDD (fullYear d) (month0 d + 1) (dayOfMonth d)"
proof -
  have y: "string_of_nat (fullYear d) =
             [digit_char (fullYear d div 1000), digit_char (fullYear d div 100 mod 10),
              digit_char (fullYear d div 10 mod 10), digit_char (fullYear d mod 10)]"
    using assms by (intro string_of_nat_4) simp_all
  have t: "fullYear d div 1000 mod 10 = fullYear d div 1000"
    using assms by simp
  have m: "slice_last2 (CHR ''0'' # string_of_nat (month0 d + 1)) = two_digits (month0 d + 1)"
    using assms by (intro pad2) simp
  have dd: "slice_last2 (CHR ''0'' # string_of_nat (dayOfMonth d)) = two_digits (dayOfMonth d)"
    using assms by (intro pad2) simp
  show ?thesis
    unfolding logDateString_def spec_YYYYMMDD_def
    by (simp only: y t m dd append_Cons append_Nil)
qed

lemma path_join_logs:
  "path_join p [''logs'', CHR ''l'' # f] = p @ [''logs'', CHR ''l'' # f]"
  "path_join p [''..'', ''logs'', CHR ''l'' # f] = butlast p @ [''logs'', CHR ''l'' # f]"
  by simp_all

lemma initLogFiles_v1_logFile:
  "logFile (fst (initLogFiles_v1 w)) =
     cwd w @ [''logs'', ''log_'' @ logDateString (clock w (ticks w)) @ ''.txt'']"
  by (simp add: initLogFiles_v1_def new_Date_def Let_def)

lemma initLogFiles_v2_logFile:
  "logFile (fst (initLogFiles_v2 w)) =
     butlast (module_dir w) @ [''logs'', ''log_'' @ logDateString (clock w (ticks w)) @ ''.txt'']"
  by (simp add: initLogFiles_v2_def new_Date_def Let_def)

lemma new_Logger_v1_first:
  "new_Logger_v1 None w = (Some (fst (initLogFiles_v1 w)), fst (initLogFiles_v1 w), snd (initLogFiles_v1 w))"
  by (simp add: new_Logger_v1_def split_def Let_def)

lemma new_Logger_v2_first:
  "fst (new_Logger_v2 None w) = Some (fst (initLogFiles_v2 w))"
  by (simp add: new_Logger_v2_def split: prod.splits sum.splits)

text \<open>
  Claim C4, as amended. The first construction stores as path of the general log file
  \<open><cwd>/logs/log_<date>.txt\<close> in variant 1, and \<open><module directory>/../logs/log_<date>.txt\<close>
  in variant 2, whatever the working directory is; \<open><date>\<close> is \<open>logDateString\<close> of the
  clock reading taken by that construction. Every later construction, in whatever
  world, returns the stored instance as it is, and no method of the class assigns the
  path again. For a year of four digits \<open>logDateString\<close> is the specification's
  \<open>YYYYMMDD\<close>.
\<close>

theorem logger_paths_resolved_once:
  "logFile (fst (snd (new_Logger_v1 None w)))
     = cwd w @ [''logs'', ''log_'' @ logDateString (clock w (ticks w)) @ ''.txt'']
 \<and> fst (new_Logger_v1 None w) = Some (fst (snd (new_Logger_v1 None w)))
 \<and> (\<exists>this. fst (new_Logger_v2 None w) = Some this
        \<and> logFile this = butlast (module_dir w)
            @ [''logs'', ''log_'' @ logDateString (clock w (ticks w)) @ ''.txt''])
 \<and> new_Logger_v1 (Some this) w' = (Some this, this, w')
 \<and> new_Logger_v2 (Some this) w' = (Some this, Inr this, w')
 \<and> (1000 \<le> fullYear d \<and> fullYear d \<le> 9999 \<and> month0 d < 12
      \<and> 1 \<le> dayOfMonth d \<and> dayOfMonth d \<le> 31
     \<longrightarrow> logDateString d = spec_YYYYMMDD (fullYear d) (month0 d + 1) (dayOfMonth d))"
proof -
  have again: "new_Logger_v1 (Some this) w' = (Some this, this, w')"
    "new_Logger_v2 (Some this) w' = (Some this, Inr this, w')"
    by (simp_all add: new_Logger_v1_def new_Logger_v2_def)
  show ?thesis
    by (simp add: again new_Logger_v1_first new_Logger_v2_first initLogFiles_v1_logFile
        initLogFiles_v2_logFile logDateString_is_YYYYMMDD)
qed

lemma demo_date: "logDateString demo_instant = ''20261103''"
  by (simp add: logDateString_def string_of_nat_4 pad2 two_digits_def
      digit_char_def demo_instant_def)

theorem logger_paths_resolved_once_witness:
  "1000 \<le> fullYear demo_instant \<and> fullYear demo_instant \<le> 9999 \<and> month0 demo_instant < 12
   \<and> 1 \<le> dayOfMonth demo_instant \<and> dayOfMonth demo_instant \<le> 31
   \<and> logDateString demo_instant = ''20261103''
   \<and> spec_YYYYMMDD 2026 11 3 = ''20261103''
   \<and> logFile (fst (snd (new_Logger_v1 None demo_world)))
       = [''srv'', ''app'', ''logs'', ''log_20261103.txt'']
   \<and> new_Logger_v1 (Some demo_logger) demo_world_readonly
       = (Some demo_logger, demo_logger, demo_world_readonly)"
proof -
  have h: "1000 \<le> fullYear demo_instant \<and> fullYear demo_instant \<le> 9999
           \<and> month0 demo_instant < 12
           \<and> 1 \<le> dayOfMonth demo_instant \<and> dayOfMonth demo_instant \<le> 31"
    by (simp add: demo_instant_def)
  have f: "fullYear demo_instant = 2026" "month0 demo_instant = 10" "dayOfMonth demo_instant = 3"
    by (simp_all add: demo_instant_def)
  have c: "cwd demo_world = [''srv'', ''app'']" "clock demo_world (ticks demo_world) = demo_instant"
    by (simp_all add: demo_world_def)
  show ?thesis
    using h logger_paths_resolved_once
      [of demo_world demo_logger demo_world_readonly demo_instant]
    by (simp add: f c demo_date spec_YYYYMMDD_def two_digits_def digit_char_def)
qed

text \<open>
  Claim C4 as stated fails for variant 2: with the library under
  \<open>/srv/app/node_modules/js-kit/lib\<close> and the working directory \<open>/srv/app\<close>, the log
  file lies under \<open>/srv/app/node_modules/js-kit/logs\<close>, not under \<open>/srv/app/logs\<close>.
\<close>

theorem logger_v2_path_counterexample:
  "map_option logFile (fst (new_Logger_v2 None demo_world))
     = Some [''srv'', ''app'', ''node_modules'', ''js-kit'', ''logs'', ''log_20261103.txt'']
   \<and> cwd demo_world @ [''logs'', ''log_20261103.txt'']
     = [''srv'', ''app'', ''logs'', ''log_20261103.txt'']"
  by (simp add: new_Logger_v2_first initLogFiles_v2_logFile demo_date demo_world_def)

section \<open>Double arithmetic: rounding\<close>

lemma round_even_of_int [simp]: "round_even (of_int n) = n"
  by (simp add: round_even_def)

lemma round_even_le:
  assumes "y \<le> of_int N"
  shows "round_even y \<le> N"
proof (cases "y = of_int N")
  case True
  then show ?thesis by simp
next
  case False
  then have "y < of_int N" using assms by simp
  then have "\<lfloor>y\<rfloor> < N" by (simp add: floor_less_iff)
  then show ?thesis
    by (simp add: round_even_def Let_def)
qed

lemma round_even_ge:
  assumes "of_int N \<le> y"
  shows "N \<le> round_even y"
proof -
  have "N \<le> \<lfloor>y\<rfloor>" using assms by (simp add: le_floor_iff)
  then show ?thesis
    by (simp add: round_even_def Let_def)
qed

lemma round_even_below_half:
  assumes "y < of_int N - 1 / 2"
  shows "round_even y \<le> N - 1"
proof -
  have "y < of_int N" using assms by simp
  then have "\<lfloor>y\<rfloor> < N" by (simp add: floor_less_iff)
  then have f: "\<lfloor>y\<rfloor> \<le> N - 1" by simp
  show ?thesis
  proof (cases "\<lfloor>y\<rfloor> = N - 1")
    case True
    then have "y - of_int \<lfloor>y\<rfloor> < 1 / 2" using assms by simp
    then show ?thesis using True by (simp add: round_even_def Let_def)
  next
    case False
    then have "\<lfloor>y\<rfloor> + 1 \<le> N - 1" using f by simp
    then show ?thesis using f by (simp add: round_even_def Let_def)
  qed
qed


lemma spacing_from_props:
  assumes "u = 2 ^ k / 2 ^ min_exp" and "k = 0 \<or> 2 ^ 52 \<le> \<bar>x\<bar> / u"
  shows "\<exists>k'. spacing_from u x = 2 ^ k' / 2 ^ min_exp
            \<and> \<bar>x\<bar> / spacing_from u x < 2 ^ 53
            \<and> (k' = 0 \<or> 2 ^ 52 \<le> \<bar>x\<bar> / spacing_from u x)"
  using assms
proof (induction u x arbitrary: k rule: spacing_from.induct)
  case (1 u x)
  have pos: "0 < u" using "1.prems"(1) by simp
  show ?case
  proof (cases "\<bar>x\<bar> / u < 2 ^ 53")
    case True
    then have "spacing_from u x = u"
      by (subst spacing_from.simps) simp
    then show ?thesis
      using True "1.prems" by auto
  next
    case False
    then have stop: "\<not> (u \<le> 0 \<or> \<bar>x\<bar> / u < 2 ^ 53)"
      using pos by simp
    have step: "spacing_from u x = spacing_from (2 * u) x"
      using stop by (subst spacing_from.simps) simp
    have u2: "2 * u = 2 ^ Suc k / 2 ^ min_exp"
      using "1.prems"(1) by simp
    have "2 ^ 53 \<le> \<bar>x\<bar> / u" using False by simp
    then have big: "2 ^ 52 \<le> \<bar>x\<bar> / (2 * u)" by simp
    have side: "Suc k = 0 \<or> 2 ^ 52 \<le> \<bar>x\<bar> / (2 * u)"
      using big by simp
    show ?thesis
      unfolding step
      by (rule "1.IH" [OF stop u2 side])
  qed
qed

lemma spacing_props:
  obtains k where "spacing x = 2 ^ k / 2 ^ min_exp"
    and "\<bar>x\<bar> / spacing x < 2 ^ 53"
    and "k = 0 \<or> 2 ^ 52 \<le> \<bar>x\<bar> / spacing x"
proof -
  have "\<exists>k'. spacing_from (1 / 2 ^ min_exp) x = 2 ^ k' / 2 ^ min_exp
            \<and> \<bar>x\<bar> / spacing_from (1 / 2 ^ min_exp) x < 2 ^ 53
            \<and> (k' = 0 \<or> 2 ^ 52 \<le> \<bar>x\<bar> / spacing_from (1 / 2 ^ min_exp) x)"
    by (rule spacing_from_props [of _ 0]) simp_all
  then obtain k' where "spacing x = 2 ^ k' / 2 ^ min_exp"
    and "\<bar>x\<bar> / spacing x < 2 ^ 53"
    and "k' = 0 \<or> 2 ^ 52 \<le> \<bar>x\<bar> / spacing x"
    unfolding spacing_def by blast
  then show ?thesis
    by (rule that)
qed

text \<open>Below \<open>2 ^ 53\<close> the doubles are at most 1 apart, and the spacing divides 1.\<close>

lemma spacing_small:
  assumes "\<bar>x\<bar> < 2 ^ 53"
  obtains d where "spacing x = 1 / 2 ^ d" and "d \<le> min_exp"
    and "d = min_exp \<or> 2 ^ 52 \<le> \<bar>x\<bar> * 2 ^ d" and "\<bar>x\<bar> * 2 ^ d < 2 ^ 53"
proof -
  obtain k where u: "spacing x = 2 ^ k / 2 ^ min_exp"
    and lt: "\<bar>x\<bar> / spacing x < 2 ^ 53"
    and ge: "k = 0 \<or> 2 ^ 52 \<le> \<bar>x\<bar> / spacing x"
    by (rule spacing_props)
  have k: "k \<le> min_exp"
  proof (rule ccontr)
    assume "\<not> k \<le> min_exp"
    then have km: "Suc min_exp \<le> k" by simp
    then have "(2::real) ^ Suc min_exp \<le> 2 ^ k"
      by (intro power_increasing) simp_all
    then have "2 \<le> spacing x"
      by (simp add: u field_simps)
    moreover have "2 ^ 52 \<le> \<bar>x\<bar> / spacing x"
      using ge km by auto
    moreover have pos: "0 < spacing x" by (simp add: u)
    ultimately have "2 ^ 52 * spacing x \<le> \<bar>x\<bar>" and "2 \<le> spacing x"
      by (simp_all add: pos_le_divide_eq)
    then have "2 ^ 52 * 2 \<le> \<bar>x\<bar>"
      by simp
    then show False using assms by simp
  qed
  define d where "d = min_exp - k"
  have me: "(2::real) ^ min_exp = 2 ^ k * 2 ^ d"
    using k by (simp add: d_def power_add [symmetric])
  have s: "spacing x = 1 / 2 ^ d"
    by (simp add: u me)
  have div: "\<bar>x\<bar> / spacing x = \<bar>x\<bar> * 2 ^ d"
    by (simp add: s)
  have "d = min_exp \<or> 2 ^ 52 \<le> \<bar>x\<bar> * 2 ^ d"
  proof (cases "k = 0")
    case True
    then show ?thesis by (simp add: d_def)
  next
    case False
    then have "2 ^ 52 \<le> \<bar>x\<bar> / spacing x" using ge by simp
    then show ?thesis by (simp only: div) simp
  qed
  moreover have "\<bar>x\<bar> * 2 ^ d < 2 ^ 53"
    using lt by (simp only: div)
  moreover have "d \<le> min_exp" by (simp add: d_def)
  ultimately show ?thesis
    using s by (intro that [of d])
qed

lemma fl_finite:
  assumes "y = of_int (round_even (x / spacing x)) * spacing x"
    and "\<bar>y\<bar> < 2 ^ 1024"
  shows "fl x = Num y"
  using assms by (auto simp add: fl_def Let_def)

lemma fl_below_int:
  fixes n :: int
  assumes n: "1 \<le> n" "n \<le> 2 ^ 53"
    and x: "0 \<le> x" "x \<le> of_int n * (1 - 1 / 2 ^ 53)"
  shows "\<exists>y. fl x = Num y \<and> 0 \<le> y \<and> y < of_int n"
proof -
  have npos: "(0::real) < of_int n" using n by simp
  have "of_int n * (1 - 1 / 2 ^ 53) < (of_int n :: real)"
    using npos by (simp add: algebra_simps)
  then have xn: "x < of_int n" using x by simp
  have n53: "(of_int n :: real) \<le> 2 ^ 53"
    using n(2) by (metis of_int_le_iff of_int_numeral of_int_power)
  then have x53: "\<bar>x\<bar> < 2 ^ 53" using xn x by simp
  obtain d where s: "spacing x = 1 / 2 ^ d" and dm: "d \<le> min_exp"
    and ge: "d = min_exp \<or> 2 ^ 52 \<le> \<bar>x\<bar> * 2 ^ d" and lt: "\<bar>x\<bar> * 2 ^ d < 2 ^ 53"
    using x53 by (rule spacing_small)
  define N where "N = n * 2 ^ d"
  have N: "(of_int N :: real) = of_int n * 2 ^ d" by (simp add: N_def)
  have big: "(2::real) ^ 52 < of_int N"
  proof (cases "d = min_exp")
    case True
    have "(2::real) ^ 52 < 2 ^ min_exp"
      by (intro power_strict_increasing) (simp_all add: min_exp_def)
    also have "\<dots> \<le> of_int n * 2 ^ min_exp" using n by simp
    finally show ?thesis by (simp add: N True)
  next
    case False
    then have "2 ^ 52 \<le> \<bar>x\<bar> * 2 ^ d" using ge by simp
    also have "\<dots> < of_int n * 2 ^ d" using xn x by simp
    finally show ?thesis by (simp add: N)
  qed
  have "x * 2 ^ d \<le> of_int n * (1 - 1 / 2 ^ 53) * 2 ^ d"
    using x by simp
  also have "\<dots> = of_int N - of_int N / 2 ^ 53"
    by (simp add: N algebra_simps)
  also have "\<dots> < of_int N - 1 / 2"
    using big by simp
  finally have "x / spacing x < of_int N - 1 / 2"
    by (simp add: s)
  then have m_le: "round_even (x / spacing x) \<le> N - 1"
    by (rule round_even_below_half)
  have "of_int 0 \<le> x / spacing x" using x by (simp add: s)
  then have m_ge: "0 \<le> round_even (x / spacing x)"
    by (rule round_even_ge)
  define y where "y = of_int (round_even (x / spacing x)) * spacing x"
  have y0: "0 \<le> y" using m_ge by (simp add: y_def s)
  have "of_int (round_even (x / spacing x)) \<le> (of_int (N - 1) :: real)"
    using m_le by (simp only: of_int_le_iff)
  then have "y \<le> of_int (N - 1) / 2 ^ d"
    by (simp add: y_def s divide_right_mono)
  also have "\<dots> = of_int n - 1 / 2 ^ d"
    by (simp add: N diff_divide_distrib)
  also have "\<dots> < of_int n" by simp
  finally have yn: "y < of_int n" .
  have "\<bar>y\<bar> < 2 ^ 53" using y0 yn n53 by simp
  also have "(2::real) ^ 53 < 2 ^ 1024"
    by (intro power_strict_increasing) simp_all
  finally have "fl x = Num y"
    using y_def by (intro fl_finite) simp_all
  then show ?thesis using y0 yn by blast
qed


lemma fl_above_int:
  fixes j :: int
  assumes j: "0 \<le> j" "of_int j \<le> x" and x: "x < 2 ^ 53"
  shows "\<exists>y. fl x = Num y \<and> of_int j \<le> y"
proof -
  have x0: "0 \<le> x" using j by (meson of_int_0_le_iff order_trans)
  then have x53: "\<bar>x\<bar> < 2 ^ 53" using x by simp
  obtain d where s: "spacing x = 1 / 2 ^ d" and dm: "d \<le> min_exp"
    and lt: "\<bar>x\<bar> * 2 ^ d < 2 ^ 53"
    using x53 by (rule spacing_small)
  define y where "y = of_int (round_even (x / spacing x)) * spacing x"
  have "of_int (j * 2 ^ d) \<le> x / spacing x"
    using j by (simp add: s)
  then have "j * 2 ^ d \<le> round_even (x / spacing x)"
    by (rule round_even_ge)
  then have "(of_int (j * 2 ^ d) :: real) \<le> of_int (round_even (x / spacing x))"
    by (simp only: of_int_le_iff)
  then have jy: "of_int j \<le> y"
    by (simp add: y_def s pos_le_divide_eq)
  have "x / spacing x \<le> of_int (2 ^ 53)"
    using lt x0 by (simp add: s)
  then have "round_even (x / spacing x) \<le> 2 ^ 53"
    by (rule round_even_le)
  then have "(of_int (round_even (x / spacing x)) :: real) \<le> of_int (2 ^ 53)"
    by (simp only: of_int_le_iff)
  then have "y \<le> 2 ^ 53 / 2 ^ d"
    by (simp add: y_def s divide_right_mono)
  also have "\<dots> \<le> 2 ^ 53"
    by (simp add: field_simps)
  finally have "y \<le> 2 ^ 53" .
  moreover have "0 \<le> y" using jy j by (meson of_int_0_le_iff order_trans)
  ultimately have "\<bar>y\<bar> \<le> 2 ^ 53" by simp
  also have "(2::real) ^ 53 < 2 ^ 1024"
    by (intro power_strict_increasing) simp_all
  finally have "fl x = Num y"
    using y_def by (intro fl_finite) simp_all
  then show ?thesis using jy by blast
qed

text \<open>A number \<open>c / 2 ^ j\<close> with \<open>\<bar>c\<bar> < 2 ^ 53\<close> is a double: rounding leaves it as it is.\<close>

lemma fl_exact:
  fixes c :: int
  assumes c: "\<bar>c\<bar> < 2 ^ 53" and j: "j \<le> min_exp"
  shows "fl (of_int c / 2 ^ j) = Num (of_int c / 2 ^ j)"
proof -
  define x :: real where "x = of_int c / 2 ^ j"
  have c53: "\<bar>of_int c :: real\<bar> < 2 ^ 53"
    using c by (metis of_int_abs of_int_less_iff of_int_numeral of_int_power)
  have "\<bar>x\<bar> = \<bar>of_int c\<bar> / 2 ^ j" by (simp add: x_def)
  also have "\<dots> \<le> \<bar>of_int c\<bar> / 1"
    by (intro divide_left_mono) simp_all
  finally have x53: "\<bar>x\<bar> < 2 ^ 53" using c53 by simp
  obtain d where s: "spacing x = 1 / 2 ^ d" and dm: "d \<le> min_exp"
    and ge: "d = min_exp \<or> 2 ^ 52 \<le> \<bar>x\<bar> * 2 ^ d"
    using x53 by (rule spacing_small)
  have jd: "j \<le> d"
  proof (rule ccontr)
    assume "\<not> j \<le> d"
    then have dj: "Suc d \<le> j" by simp
    then have "d \<noteq> min_exp" using j by simp
    then have big: "2 ^ 52 \<le> \<bar>x\<bar> * 2 ^ d" using ge by simp
    have "(2::real) ^ Suc d \<le> 2 ^ j"
      using dj by (intro power_increasing) simp_all
    then have "(2::real) ^ d / 2 ^ j \<le> 1 / 2"
      by (simp add: field_simps)
    moreover define t :: real where "t = 2 ^ d / 2 ^ j"
    ultimately have t: "t \<le> 1 / 2" by simp
    have xt: "\<bar>x\<bar> * 2 ^ d = \<bar>of_int c\<bar> * t"
      by (simp add: x_def t_def)
    have "\<bar>of_int c\<bar> * t \<le> \<bar>of_int c :: real\<bar> * (1 / 2)"
      using t by (intro mult_left_mono) simp_all
    also have "\<dots> < 2 ^ 53 * (1 / 2)"
      using c53 by simp
    finally have "\<bar>x\<bar> * 2 ^ d < 2 ^ 52"
      by (simp add: xt)
    then show False using big by simp
  qed
  have p: "(2::real) ^ d = 2 ^ j * 2 ^ (d - j)"
    using jd by (simp add: power_add [symmetric])
  have "x / spacing x = x * 2 ^ d"
    by (simp add: s)
  also have "\<dots> = of_int c / 2 ^ j * (2 ^ j * 2 ^ (d - j))"
    by (simp only: x_def p)
  also have "\<dots> = of_int (c * 2 ^ (d - j))"
    by simp
  finally have q: "x / spacing x = of_int (c * 2 ^ (d - j))" .
  have "x / spacing x * spacing x = x"
    by (simp add: s)
  then have "of_int (round_even (x / spacing x)) * spacing x = x"
    by (simp only: q round_even_of_int)
  moreover have "(2::real) ^ 53 < 2 ^ 1024"
    by (intro power_strict_increasing) simp_all
  ultimately have "fl x = Num x"
    using x53 by (intro fl_finite) simp_all
  then show ?thesis by (simp only: x_def)
qed

lemma fl_of_int:
  fixes c :: int
  assumes "\<bar>c\<bar> < 2 ^ 53"
  shows "fl (of_int c) = Num (of_int c)"
  using fl_exact [OF assms, of 0] by simp

lemma fl_numeral:
  "(numeral k :: int) < 2 ^ 53 \<Longrightarrow> fl (numeral k) = Num (numeral k)"
  "(numeral k :: int) < 2 ^ 53 \<Longrightarrow> fl (- numeral k) = Num (- numeral k)"
  "fl 0 = Num 0" "fl 1 = Num 1"
  using fl_of_int [of "numeral k"] fl_of_int [of "- numeral k"] fl_of_int [of 0] fl_of_int [of 1]
  by simp_all

text \<open>A double below 1 is at most \<open>1 - 2 ^ -53\<close>.\<close>

lemma double_below_one:
  assumes dbl: "fl r = Num r" and r: "0 \<le> r" "r < 1"
  shows "r \<le> 1 - 1 / 2 ^ 53"
proof -
  have r53: "\<bar>r\<bar> < 2 ^ 53" using r by simp
  obtain d where s: "spacing r = 1 / 2 ^ d"
    and lt: "\<bar>r\<bar> * 2 ^ d < 2 ^ 53"
    using r53 by (rule spacing_small)
  define m where "m = round_even (r / spacing r)"
  have "of_int m * spacing r = r"
    using dbl by (simp add: fl_def Let_def m_def split: if_splits)
  then have rm: "r = of_int m / 2 ^ d" by (simp add: s)
  then have md: "of_int m = r * 2 ^ d" by simp
  have "(of_int m :: real) < of_int (2 ^ 53)"
    using lt r by (simp add: md)
  then have "m < 2 ^ 53" by (simp only: of_int_less_iff)
  then have m53: "m \<le> 2 ^ 53 - 1" by simp
  show ?thesis
  proof (cases "53 \<le> d")
    case True
    have "(of_int m :: real) \<le> of_int (2 ^ 53 - 1)"
      using m53 by (simp only: of_int_le_iff)
    then have "r \<le> (2 ^ 53 - 1) / 2 ^ d"
      by (simp add: rm divide_right_mono)
    also have "\<dots> \<le> (2 ^ 53 - 1) / 2 ^ 53"
      using True by (intro divide_left_mono power_increasing) simp_all
    also have "\<dots> = 1 - 1 / 2 ^ 53" by (simp add: diff_divide_distrib)
    finally show ?thesis .
  next
    case False
    have "(of_int m :: real) < of_int (2 ^ d)"
      using r by (simp add: md)
    then have "m < 2 ^ d" by (simp only: of_int_less_iff)
    then have "m \<le> 2 ^ d - 1" by simp
    then have "(of_int m :: real) \<le> of_int (2 ^ d - 1)"
      by (simp only: of_int_le_iff)
    then have "r \<le> (2 ^ d - 1) / 2 ^ d"
      by (simp add: rm divide_right_mono)
    also have "\<dots> = 1 - 1 / 2 ^ d" by (simp add: diff_divide_distrib)
    also have "\<dots> \<le> 1 - 1 / 2 ^ 53"
    proof -
      have "(2::real) ^ d \<le> 2 ^ 53"
        using False by (intro power_increasing) simp_all
      then have "1 / (2::real) ^ 53 \<le> 1 / 2 ^ d"
        by (intro divide_left_mono) simp_all
      then show ?thesis by simp
    qed
    finally show ?thesis .
  qed
qed

section \<open>Random integers and sleep\<close>

lemma logger_frame:
  "randoms (snd (logger_log v lg m ty w)) = randoms w"
  "draws (snd (logger_log v lg m ty w)) = draws w"
  "randoms (snd (logger_error v lg m w)) = randoms w"
  "draws (snd (logger_error v lg m w)) = draws w"
  by (cases v; simp add: logger_log_def logger_error_def error_v1_def error_v2_def
        log_v1_frame log_v2_frame)+

lemma logType_error:
  "logType this ''error'' =
     \<lparr>type = ''[ERROR]'', report = True, onConsole = True, file' = logFile this\<rparr>"
  by (simp add: logType_def toLowerCase_def lower_char_def)

lemma error_v2_stdout:
  "stdout (snd (error_v2 this message w)) =
     stdout w @ [''['' @ iso (clock w (ticks w)) @ ''] [ERROR] '' @ message]"
  by (simp add: error_v2_def log_v2_unfold logType_error fs_appendFileSync_frame console_log_def)

lemma error_v1_stdout:
  "stacks w (captured w) \<noteq> NoLine \<Longrightarrow>
   \<exists>label. stdout (snd (error_v1 this message w)) =
     stdout w @ [''['' @ iso (clock w (ticks w)) @ ''] [ERROR] '' @ label @ '': '' @ message]"
  by (simp add: error_v1_def log_v1_def new_Date_def new_Error_stack_def Let_def and_then_def
      logType_error fs_appendFileSync_frame console_log_def)

text \<open>
  Claim C7. When \<open>min\<close> or \<open>max\<close> is falsy (for instance \<open>min = 0\<close>),
  \<open>getRandomInt\<close> returns \<open>false\<close>; the world it leaves is the one that a single call
  \<open>logger.error('No parameter were specified!')\<close> leaves, so exactly one error is
  logged; and \<open>Math.random()\<close> has not been called. With variant 2 of the logger (and
  with variant 1 when the stack has a caller line) standard output has grown by exactly
  the one \<open>[ERROR]\<close> line.
\<close>

theorem getRandomInt_falsy:
  assumes "\<not> truthy minv \<or> \<not> truthy maxv"
  shows "getRandomInt v logger minv maxv w
           = (JFalse, detached (logger_error v logger ''No parameter were specified!'' w))
       \<and> draws (snd (getRandomInt v logger minv maxv w)) = draws w
       \<and> (v = V2 \<longrightarrow>
            stdout (snd (getRandomInt v logger minv maxv w))
              = stdout w @ [''['' @ iso (clock w (ticks w))
                            @ ''] [ERROR] No parameter were specified!''])
       \<and> (v = V1 \<and> stacks w (captured w) \<noteq> NoLine \<longrightarrow>
            (\<exists>label. stdout (snd (getRandomInt v logger minv maxv w))
              = stdout w @ [''['' @ iso (clock w (ticks w)) @ ''] [ERROR] '' @ label
                            @ '': No parameter were specified!'']))"
proof -
  have "\<not> truthy (if minv = Undefined then Num 0 else minv) \<or> \<not> truthy maxv"
    using assms by auto
  then have eq: "getRandomInt v logger minv maxv w
           = (JFalse, detached (logger_error v logger ''No parameter were specified!'' w))"
    by (simp add: getRandomInt_def Let_def)
  have d: "draws (snd (getRandomInt v logger minv maxv w)) = draws w"
    by (simp add: eq detached_def logger_frame)
  have s2: "stdout (snd (getRandomInt V2 logger minv maxv w))
              = stdout w @ [''['' @ iso (clock w (ticks w))
                            @ ''] [ERROR] No parameter were specified!'']"
    if "v = V2"
    using eq that by (simp add: detached_def logger_error_def error_v2_stdout)
  have s1: "\<exists>label. stdout (snd (getRandomInt V1 logger minv maxv w))
              = stdout w @ [''['' @ iso (clock w (ticks w)) @ ''] [ERROR] '' @ label
                            @ '': No parameter were specified!'']"
    if "v = V1" "stacks w (captured w) \<noteq> NoLine"
    using eq that error_v1_stdout [of w logger "''No parameter were specified!''"]
    by (simp add: detached_def logger_error_def)
  show ?thesis
    using eq d s1 s2 by blast
qed

theorem getRandomInt_falsy_witness:
  "\<not> truthy (Num 0)
   \<and> fst (getRandomInt V2 demo_logger (Num 0) (Num 5) demo_world) = JFalse
   \<and> draws (snd (getRandomInt V2 demo_logger (Num 0) (Num 5) demo_world)) = 0
   \<and> stdout (snd (getRandomInt V2 demo_logger (Num 0) (Num 5) demo_world))
       = [''[2026-11-03T08:00:00.000Z] [ERROR] No parameter were specified!'']"
proof -
  have h: "\<not> truthy (Num 0) \<or> \<not> truthy (Num 5)"
    by simp
  have w: "draws demo_world = 0" "stdout demo_world = []"
    "iso (clock demo_world (ticks demo_world)) = ''2026-11-03T08:00:00.000Z''"
    by (simp_all add: demo_defs)
  note T = getRandomInt_falsy [OF h, of V2 demo_logger demo_world]
  have a: "fst (getRandomInt V2 demo_logger (Num 0) (Num 5) demo_world) = JFalse"
    using T by simp
  have b: "draws (snd (getRandomInt V2 demo_logger (Num 0) (Num 5) demo_world))
             = draws demo_world"
    using T by blast
  have c: "stdout (snd (getRandomInt V2 demo_logger (Num 0) (Num 5) demo_world))
             = stdout demo_world @ [''['' @ iso (clock demo_world (ticks demo_world))
                                    @ ''] [ERROR] No parameter were specified!'']"
    using T by blast
  show ?thesis
    using a b c by (simp add: w)
qed



lemma range_width:
  fixes a b :: int
  assumes "a \<le> b" "\<bar>a\<bar> < 2 ^ 53" "\<bar>b\<bar> < 2 ^ 53" "b - a + 1 < 2 ^ 53"
  shows "js_add (js_sub (Num (of_int b)) (Num (of_int a))) (Num 1) = Num (of_int (b - a + 1))"
proof -
  have "(of_int b :: real) + - of_int a = of_int (b - a)" by simp
  moreover have "fl (of_int (b - a)) = Num (of_int (b - a))"
    using assms by (intro fl_of_int) simp
  ultimately have "js_sub (Num (of_int b)) (Num (of_int a)) = Num (of_int (b - a))"
    by (simp only: js_sub_def to_number.simps num_neg.simps num_add.simps)
  moreover have "(of_int (b - a) :: real) + 1 = of_int (b - a + 1)" by simp
  moreover have "fl (of_int (b - a + 1)) = Num (of_int (b - a + 1))"
    using assms by (intro fl_of_int) simp
  ultimately show ?thesis
    by (simp only: js_add_def to_number.simps num_add.simps)
qed

lemma random_between_value:
  fixes a b :: int
  assumes range: "a \<le> b" "\<bar>a\<bar> < 2 ^ 53" "\<bar>b\<bar> < 2 ^ 53" "b - a + 1 < 2 ^ 53"
    and p: "fl (r * of_int (b - a + 1)) = Num p" "0 \<le> p" "p < of_int (b - a + 1)"
  shows "random_between r (Num (of_int a)) (Num (of_int b)) = Num (of_int (\<lfloor>p\<rfloor> + a))"
    and "a \<le> \<lfloor>p\<rfloor> + a" and "\<lfloor>p\<rfloor> + a \<le> b"
proof -
  have f0: "0 \<le> \<lfloor>p\<rfloor>" using p(2) by simp
  have "\<lfloor>p\<rfloor> < b - a + 1" using p(3) by (simp only: floor_less_iff)
  then show lo: "a \<le> \<lfloor>p\<rfloor> + a" and hi: "\<lfloor>p\<rfloor> + a \<le> b"
    using f0 by simp_all
  have "\<bar>\<lfloor>p\<rfloor> + a\<bar> < 2 ^ 53" using lo hi range(2,3) by linarith
  then have sum: "fl (of_int (\<lfloor>p\<rfloor> + a)) = Num (of_int (\<lfloor>p\<rfloor> + a))"
    by (rule fl_of_int)
  have "js_mul (Num r) (js_add (js_sub (Num (of_int b)) (Num (of_int a))) (Num 1)) = Num p"
    by (simp only: range_width [OF range] js_mul_def to_number.simps num_mul.simps p(1))
  then have "Math_floor (js_mul (Num r) (js_add (js_sub (Num (of_int b)) (Num (of_int a))) (Num 1)))
               = Num (of_int \<lfloor>p\<rfloor>)"
    by (simp add: Math_floor_def)
  moreover have "(of_int \<lfloor>p\<rfloor> :: real) + of_int a = of_int (\<lfloor>p\<rfloor> + a)" by simp
  ultimately show "random_between r (Num (of_int a)) (Num (of_int b)) = Num (of_int (\<lfloor>p\<rfloor> + a))"
    by (simp only: random_between_def js_add_def to_number.simps num_add.simps sum)
qed

text \<open>The rounded product of a draw and a width of at most \<open>2 ^ 53\<close>.\<close>

lemma draw_product:
  fixes n :: int
  assumes r: "0 \<le> r" "r < 1" "is_double r" and n: "1 \<le> n" "n \<le> 2 ^ 53"
  obtains p where "fl (r * of_int n) = Num p" and "0 \<le> p" and "p < of_int n"
proof -
  have "r \<le> 1 - 1 / 2 ^ 53"
    using r by (intro double_below_one) (simp_all add: is_double_def)
  then have "r * of_int n \<le> (1 - 1 / 2 ^ 53) * of_int n"
    using n by (intro mult_right_mono) simp_all
  then have "r * of_int n \<le> of_int n * (1 - 1 / 2 ^ 53)"
    by (simp add: mult.commute)
  moreover have "0 \<le> r * of_int n" using r n by simp
  ultimately have "\<exists>y. fl (r * of_int n) = Num y \<and> 0 \<le> y \<and> y < of_int n"
    using n by (intro fl_below_int)
  then show ?thesis using that by blast
qed

lemma getRandomInt_value:
  "truthy minv \<Longrightarrow> truthy maxv \<Longrightarrow>
   fst (getRandomInt v logger minv maxv w) = random_between (randoms w (draws w)) minv maxv"
  by (auto simp add: getRandomInt_def Let_def Math_random_def)

lemma width_bounds:
  fixes a b :: int
  assumes "a \<le> b" "b - a + 1 < 2 ^ 53"
  shows "1 \<le> b - a + 1" "b - a + 1 \<le> 2 ^ 53"
  using assms by simp_all

text \<open>
  Claim C8, as amended. For whole numbers \<open>min \<le> max\<close>, both non-zero and of
  magnitude below \<open>2 ^ 53\<close>, with \<open>max - min + 1\<close> below \<open>2 ^ 53\<close>, and a draw
  \<open>0 \<le> random() < 1\<close>, \<open>getRandomInt(min, max)\<close> returns the value of
  \<open>Math.floor(Math.random() * (max - min + 1)) + min\<close>, which is a whole number
  between \<open>min\<close> and \<open>max\<close>; and there is a draw for which it returns \<open>min\<close> and one
  for which it returns \<open>max\<close>.
\<close>

theorem getRandomInt_in_range:
  fixes a b :: int
  assumes "a \<noteq> 0" "b \<noteq> 0" "a \<le> b"
    and "\<bar>a\<bar> < 2 ^ 53" "\<bar>b\<bar> < 2 ^ 53" "b - a + 1 < 2 ^ 53"
    and "0 \<le> randoms w (draws w)" "randoms w (draws w) < 1" "is_double (randoms w (draws w))"
  shows "fst (getRandomInt v logger (Num (of_int a)) (Num (of_int b)) w)
           = random_between (randoms w (draws w)) (Num (of_int a)) (Num (of_int b))
       \<and> (\<exists>x. fst (getRandomInt v logger (Num (of_int a)) (Num (of_int b)) w) = Num (of_int x)
              \<and> a \<le> x \<and> x \<le> b)
       \<and> (\<exists>r. 0 \<le> r \<and> r < 1 \<and> is_double r
              \<and> fst (getRandomInt v logger (Num (of_int a)) (Num (of_int b))
                        (w\<lparr>randoms := \<lambda>k. r\<rparr>)) = Num (of_int a))
       \<and> (\<exists>r. 0 \<le> r \<and> r < 1 \<and> is_double r
              \<and> fst (getRandomInt v logger (Num (of_int a)) (Num (of_int b))
                        (w\<lparr>randoms := \<lambda>k. r\<rparr>)) = Num (of_int b))"
proof -
  let ?n = "b - a + 1"
  note range = assms(3-6)
  note n = width_bounds [OF assms(3) assms(6)]
  have t: "truthy (Num (of_int a))" "truthy (Num (of_int b))"
    using assms(1,2) by simp_all
  note gri = getRandomInt_value [OF t]
  obtain p where p: "fl (randoms w (draws w) * of_int ?n) = Num p" "0 \<le> p" "p < of_int ?n"
    using assms(7-9) n by (rule draw_product)
  note rb = random_between_value [OF range p]
  have first: "\<exists>x. fst (getRandomInt v logger (Num (of_int a)) (Num (of_int b)) w) = Num (of_int x)
              \<and> a \<le> x \<and> x \<le> b"
    using rb by (simp only: gri) blast
  have zero: "is_double 0" by (simp add: is_double_def fl_numeral)
  have "fl (0 * of_int ?n) = Num 0" by (simp add: fl_numeral)
  then have "random_between 0 (Num (of_int a)) (Num (of_int b)) = Num (of_int (\<lfloor>0::real\<rfloor> + a))"
    using n by (intro random_between_value(1) [OF range]) simp_all
  then have lo: "fst (getRandomInt v logger (Num (of_int a)) (Num (of_int b))
                        (w\<lparr>randoms := \<lambda>k. 0\<rparr>)) = Num (of_int a)"
    by (simp add: gri)
  define top :: real where "top = of_int (2 ^ 53 - 1) / 2 ^ 53"
  have top_double: "is_double top"
    unfolding is_double_def top_def
    by (rule fl_exact) (simp_all add: min_exp_def)
  have top_val: "top = 1 - 1 / 2 ^ 53"
    by (simp add: top_def diff_divide_distrib)
  have top_range: "0 \<le> top" "top < 1"
    by (simp_all add: top_val)
  obtain q where q: "fl (top * of_int ?n) = Num q" "0 \<le> q" "q < of_int ?n"
    using top_range top_double n by (rule draw_product)
  have nreal: "(of_int ?n :: real) \<le> 2 ^ 53"
    using n(2) by (metis of_int_le_iff of_int_numeral of_int_power)
  then have "of_int ?n / 2 ^ 53 \<le> (1::real)"
    by simp
  then have "of_int (?n - 1) \<le> top * of_int ?n"
    by (simp add: top_val algebra_simps)
  moreover have "top * of_int ?n < 2 ^ 53"
  proof -
    have "top * of_int ?n < 1 * of_int ?n"
      using top_range n by (intro mult_strict_right_mono) simp_all
    also have "\<dots> \<le> 2 ^ 53"
      using nreal by simp
    finally show ?thesis .
  qed
  ultimately have "\<exists>y. fl (top * of_int ?n) = Num y \<and> of_int (?n - 1) \<le> y"
    using n by (intro fl_above_int) simp_all
  then have "of_int (?n - 1) \<le> q" using q(1) by auto
  then have "\<lfloor>q\<rfloor> = ?n - 1"
    using q(3) by (intro floor_unique) simp_all
  then have "random_between top (Num (of_int a)) (Num (of_int b)) = Num (of_int b)"
    using random_between_value(1) [OF range q] by simp
  then have hi: "fst (getRandomInt v logger (Num (of_int a)) (Num (of_int b))
                        (w\<lparr>randoms := \<lambda>k. top\<rparr>)) = Num (of_int b)"
    by (simp add: gri)
  have ex_lo: "\<exists>r. 0 \<le> r \<and> r < 1 \<and> is_double r
              \<and> fst (getRandomInt v logger (Num (of_int a)) (Num (of_int b))
                        (w\<lparr>randoms := \<lambda>k. r\<rparr>)) = Num (of_int a)"
    using lo zero by (intro exI [of _ 0]) simp
  have ex_hi: "\<exists>r. 0 \<le> r \<and> r < 1 \<and> is_double r
              \<and> fst (getRandomInt v logger (Num (of_int a)) (Num (of_int b))
                        (w\<lparr>randoms := \<lambda>k. r\<rparr>)) = Num (of_int b)"
    using hi top_double top_range by (intro exI [of _ top]) simp
  show ?thesis
    using gri first ex_lo ex_hi by blast
qed



lemma demo_draw:
  "randoms demo_world (draws demo_world) = 1 / 2" "is_double (1 / 2)"
proof -
  show "randoms demo_world (draws demo_world) = 1 / 2"
    by (simp add: demo_defs)
  show "is_double (1 / 2)"
    using fl_exact [of 1 1] by (simp add: is_double_def min_exp_def)
qed

lemma fl_halves:
  "fl (1 / 2) = Num (1 / 2)" "fl (3 / 2) = Num (3 / 2)" "fl (5 / 2) = Num (5 / 2)"
  "fl (3 / 4) = Num (3 / 4)" "fl (7 / 8) = Num (7 / 8)" "fl (21 / 16) = Num (21 / 16)"
  "fl (51 / 2) = Num (51 / 2)"
  using fl_exact [of 1 1] fl_exact [of 3 1] fl_exact [of 5 1] fl_exact [of 3 2]
    fl_exact [of 7 3] fl_exact [of 21 4] fl_exact [of 51 1]
  by (simp_all add: min_exp_def)

theorem getRandomInt_in_range_witness:
  "(2::int) \<noteq> 0 \<and> (5::int) \<noteq> 0 \<and> (2::int) \<le> 5
   \<and> \<bar>2::int\<bar> < 2 ^ 53 \<and> \<bar>5::int\<bar> < 2 ^ 53 \<and> (5::int) - 2 + 1 < 2 ^ 53
   \<and> 0 \<le> randoms demo_world (draws demo_world) \<and> randoms demo_world (draws demo_world) < 1
   \<and> is_double (randoms demo_world (draws demo_world))
   \<and> fst (getRandomInt V1 demo_logger (Num 2) (Num 5) demo_world) = Num 4"
proof -
  have h: "0 \<le> randoms demo_world (draws demo_world)" "randoms demo_world (draws demo_world) < 1"
    "is_double (randoms demo_world (draws demo_world))"
    by (simp_all add: demo_draw)
  have "fst (getRandomInt V1 demo_logger (Num (of_int 2)) (Num (of_int 5)) demo_world)
          = random_between (randoms demo_world (draws demo_world)) (Num (of_int 2)) (Num (of_int 5))"
    using getRandomInt_in_range [of 2 5 demo_world V1 demo_logger, OF _ _ _ _ _ _ h] by simp
  also have "\<dots> = Num 4"
    by (simp add: demo_draw random_between_def js_add_def js_sub_def js_mul_def Math_floor_def
        fl_numeral)
  finally show ?thesis
    using h by simp
qed

text \<open>
  Claim C8 as stated fails for numbers that are not whole: \<open>getRandomInt(1.5, 2)\<close>
  with the draw 0.875 returns 2.5, which is no integer and lies above \<open>max\<close>.
\<close>

theorem getRandomInt_fraction_counterexample:
  "is_double (7 / 8)
   \<and> truthy (Num (3 / 2)) \<and> truthy (Num 2)
   \<and> fst (getRandomInt V2 demo_logger (Num (3 / 2)) (Num 2)
             (demo_world\<lparr>randoms := \<lambda>k. 7 / 8\<rparr>)) = Num (5 / 2)"
proof -
  have "random_between (7 / 8) (Num (3 / 2)) (Num 2) = Num (5 / 2)"
    by (simp add: random_between_def js_add_def js_sub_def js_mul_def Math_floor_def
        fl_numeral fl_halves)
  then show ?thesis
    by (simp add: getRandomInt_value is_double_def fl_halves)
qed










section \<open>The error policy of Filer\<close>








section \<open>Refreshing a stale file\<close>

lemmas filer_defs = updateFile_def doesFileExist_def getFileStats_def fs_access_def fs_stat_def
  Date_now_def younger_than_def js_less_def js_mul_def Math_floor_def writeToFile_def render_def

text \<open>
  Claim C1 does not hold of the code. The documentation of \<open>updateFile\<close> says of
  \<open>timePeriod\<close>: if null, default is a week. The code compares the age with
  \<open>null * 1000\<close>, which is 0, so no existing file is ever young enough. In the concrete
  world the cache file is ten seconds old; \<open>updateFile(path)\<close> overwrites it with the
  empty text, where \<open>updateFile(path, 604800)\<close> leaves it alone.
\<close>

theorem updateFile_default_period_overwrites:
  "fs demo_world demo_cache = Some (File ''old'' 1793692790000)
   \<and> millis (clock demo_world (ticks demo_world)) - 1793692790000 = 10000
   \<and> fs (snd (updateFile V1 demo_logger demo_cache Undefined None demo_world)) demo_cache
       = Some (File [] 1793692800000)
   \<and> fs (snd (updateFile V2 demo_logger demo_cache Undefined None demo_world)) demo_cache
       = Some (File [] 1793692800000)
   \<and> fs (snd (updateFile V1 demo_logger demo_cache (Num 604800) None demo_world)) demo_cache
       = Some (File ''old'' 1793692790000)
   \<and> fs (snd (updateFile V2 demo_logger demo_cache (Num 604800) None demo_world)) demo_cache
       = Some (File ''old'' 1793692790000)"
  by (simp add: filer_defs eval_defs demo_defs fl_numeral)

end
